theory Spec2Isabelle
  imports Complex_Main
begin

section \<open>Tour script registry\<close>

text \<open>
  The guided tour of the portfolio site: a per-page list of steps, a small state machine
  that walks through the list of the current page, and a sound manager that schedules an
  ambient purr. The definitions below follow the cross-page variant of the tour script
  (the one that declares \<^verbatim>\<open>TOUR_ACTIVE_KEY\<close> and \<^verbatim>\<open>navigateTo\<close> targets) and the sound
  manager that goes with it.
\<close>

datatype animation = Idle | Waving | Typing | Pointing | Celebrating

text \<open>
  \<^verbatim>\<open>interface TourStep\<close>. The field \<^verbatim>\<open>id\<close> is called \<open>step_id\<close> here, since \<open>id\<close> is
  the identity function of HOL. An optional field that is left out of an object literal
  is \<open>None\<close>; \<^verbatim>\<open>target: null\<close> is \<open>None\<close> as well.
\<close>

record TourStep =
  step_id :: string
  target :: "string option"
  animation :: animation
  message :: string
  welcomeMode :: "bool option"
  navigateTo :: "string option"
  page :: "string option"

text \<open>
  The seven scripts of \<^verbatim>\<open>pageTours\<close>, one constant per key of the object literal.
  The last message of the blog script ends in a cat emoji, written here as the four bytes
  of its UTF-8 encoding.
\<close>

definition homeTour :: "TourStep list" where
  \<open>homeTour =
   [\<lparr>step_id = ''welcome'', target = None, animation = Waving,
      message = ''Meow! I'm Neko, your guide on this homepage. Let me show you around!'',
      welcomeMode = Some True, navigateTo = None, page = Some ''/''\<rparr>,
    \<lparr>step_id = ''ascii-art'', target = Some ''[data-tour-id="ascii-art"]'', animation = Pointing,
      message = ''This is Ade's digital signature. Pretty cool ASCII art, right?'',
      welcomeMode = None, navigateTo = None, page = Some ''/''\<rparr>,
    \<lparr>step_id = ''intro-terminal'', target = Some ''[data-tour-id="intro-terminal"]'',
      animation = Typing,
      message = ''Here's the quick intro - a fullstack engineer with 5+ years of experience!'',
      welcomeMode = None, navigateTo = None, page = Some ''/''\<rparr>,
    \<lparr>step_id = ''nav-cards'', target = Some ''[data-tour-id="nav-cards"]'', animation = Pointing,
      message = ''These cards are shortcuts to explore different sections.'',
      welcomeMode = None, navigateTo = None, page = Some ''/''\<rparr>,
    \<lparr>step_id = ''matrix-toggle'', target = Some ''#matrix-toggle'', animation = Pointing,
      message = ''Psst... try this button for a cool Matrix rain effect!'',
      welcomeMode = None, navigateTo = None, page = Some ''/''\<rparr>,
    \<lparr>step_id = ''complete'', target = None, animation = Celebrating,
      message = ''That's my tour! Click Next to meet Mochi on the About page!'',
      welcomeMode = Some True, navigateTo = Some ''/about'', page = Some ''/''\<rparr>]\<close>

definition aboutTour :: "TourStep list" where
  \<open>aboutTour =
   [\<lparr>step_id = ''welcome'', target = None, animation = Waving,
      message = ''Hey there! I'm Mochi, the orange cat! Neko sent you? Let me tell you about Ade!'',
      welcomeMode = Some True, navigateTo = None, page = Some ''/about''\<rparr>,
    \<lparr>step_id = ''bio'', target = Some ''[data-tour-id="page-content"] .terminal-window'',
      animation = Typing,
      message = ''Here's the bio - a self-taught fullstack engineer who's been coding for 5+ years!'',
      welcomeMode = None, navigateTo = None, page = Some ''/about''\<rparr>,
    \<lparr>step_id = ''stats'', target = Some ''[data-tour-id="page-content"] .grid'',
      animation = Pointing,
      message = ''5+ years, 5 companies, 15+ technologies, 5 industries - impressive numbers!'',
      welcomeMode = None, navigateTo = None, page = Some ''/about''\<rparr>,
    \<lparr>step_id = ''complete'', target = None, animation = Celebrating,
      message = ''That's all about Ade! Click Next to meet Yuki on the Skills page!'',
      welcomeMode = Some True, navigateTo = Some ''/skills'', page = Some ''/about''\<rparr>]\<close>

definition skillsTour :: "TourStep list" where
  \<open>skillsTour =
   [\<lparr>step_id = ''welcome'', target = None, animation = Waving,
      message = ''Purr! I'm Yuki, the white cat! Mochi told me you're coming! Let me show you Ade's skills!'',
      welcomeMode = Some True, navigateTo = None, page = Some ''/skills''\<rparr>,
    \<lparr>step_id = ''skills-list'', target = Some ''[data-tour-id="page-content"]'',
      animation = Typing,
      message = ''Frontend, Backend, Database, DevOps - full stack expertise with beautiful progress bars!'',
      welcomeMode = None, navigateTo = None, page = Some ''/skills''\<rparr>,
    \<lparr>step_id = ''complete'', target = None, animation = Celebrating,
      message = ''So many skills! Click Next to meet Shadow on the Projects page!'',
      welcomeMode = Some True, navigateTo = Some ''/projects'', page = Some ''/skills''\<rparr>]\<close>

definition projectsTour :: "TourStep list" where
  \<open>projectsTour =
   [\<lparr>step_id = ''welcome'', target = None, animation = Waving,
      message = ''*emerges from shadows* I'm Shadow. Yuki mentioned you... Let me show you the projects.'',
      welcomeMode = Some True, navigateTo = None, page = Some ''/projects''\<rparr>,
    \<lparr>step_id = ''projects-list'', target = Some ''[data-tour-id="page-content"]'',
      animation = Pointing,
      message = ''Healthcare, Fintech, Banking, Education, Gaming - diverse industries, real impact.'',
      welcomeMode = None, navigateTo = None, page = Some ''/projects''\<rparr>,
    \<lparr>step_id = ''complete'', target = None, animation = Celebrating,
      message = ''Impressive work... Click Next to meet Patches on the Experience page...'',
      welcomeMode = Some True, navigateTo = Some ''/experience'', page = Some ''/projects''\<rparr>]\<close>

definition experienceTour :: "TourStep list" where
  \<open>experienceTour =
   [\<lparr>step_id = ''welcome'', target = None, animation = Waving,
      message = ''Meow meow! I'm Patches the calico! Shadow said you're on a tour! Let's see the career journey!'',
      welcomeMode = Some True, navigateTo = None, page = Some ''/experience''\<rparr>,
    \<lparr>step_id = ''timeline'', target = Some ''[data-tour-id="page-content"]'',
      animation = Typing,
      message = ''5 companies, 5+ years of growth - from junior developer to leading teams!'',
      welcomeMode = None, navigateTo = None, page = Some ''/experience''\<rparr>,
    \<lparr>step_id = ''complete'', target = None, animation = Celebrating,
      message = ''What a journey! Click Next to meet Splash on the Contact page!'',
      welcomeMode = Some True, navigateTo = Some ''/contact'', page = Some ''/experience''\<rparr>]\<close>

definition contactTour :: "TourStep list" where
  \<open>contactTour =
   [\<lparr>step_id = ''welcome'', target = None, animation = Waving,
      message = ''Splashy hello! I'm Splash! Patches told me you've met everyone! Ready to connect with Ade?'',
      welcomeMode = Some True, navigateTo = None, page = Some ''/contact''\<rparr>,
    \<lparr>step_id = ''contact-info'', target = Some ''[data-tour-id="page-content"]'',
      animation = Pointing,
      message = ''Email, WhatsApp, LinkedIn, GitHub - so many ways to reach out!'',
      welcomeMode = None, navigateTo = None, page = Some ''/contact''\<rparr>,
    \<lparr>step_id = ''complete'', target = None, animation = Celebrating,
      message = ''Almost done! Click Next to meet Pixel on the Blog page!'',
      welcomeMode = Some True, navigateTo = Some ''/blog'', page = Some ''/contact''\<rparr>]\<close>

definition blogTour :: "TourStep list" where
  \<open>blogTour =
   [\<lparr>step_id = ''welcome'', target = None, animation = Waving,
      message = ''Nyaa~! I'm Pixel, the last cat! You've met everyone! Welcome to the blog!'',
      welcomeMode = Some True, navigateTo = None, page = Some ''/blog''\<rparr>,
    \<lparr>step_id = ''blog-posts'', target = Some ''[data-tour-id="page-content"]'',
      animation = Typing,
      message = ''Here you'll find technical articles, tutorials, and dev stories!'',
      welcomeMode = None, navigateTo = None, page = Some ''/blog''\<rparr>,
    \<lparr>step_id = ''complete'', target = None, animation = Celebrating,
      message = ''Tour complete! You've met all 7 cats! Feel free to explore anytime! ''
                @ [CHR 0xF0, CHR 0x9F, CHR 0x90, CHR 0xB1],
      welcomeMode = Some True, navigateTo = None, page = Some ''/blog''\<rparr>]\<close>

text \<open>
  \<^verbatim>\<open>const pageTours: Record<string, TourStep[]>\<close>: the keys of the object literal, in
  the order of the source, each with its script.
\<close>

definition pageTours_table :: "(string \<times> TourStep list) list" where
  "pageTours_table =
   [(''/'', homeTour), (''/about'', aboutTour), (''/skills'', skillsTour),
    (''/projects'', projectsTour), (''/experience'', experienceTour),
    (''/contact'', contactTour), (''/blog'', blogTour)]"

definition pageTours :: "string \<rightharpoonup> TourStep list" where
  "pageTours = map_of pageTours_table"

text \<open>
  \<^verbatim>\<open>return pageTours[page] || pageTours['/'];\<close> An array is truthy in JavaScript
  even when it is empty, so the right operand is taken exactly when the key is absent.
\<close>

definition getTourStepsForPage :: "string \<Rightarrow> TourStep list" where
  "getTourStepsForPage pg =
     (case pageTours pg of Some steps \<Rightarrow> steps | None \<Rightarrow> homeTour)"

section \<open>Tour state, browser state and collaborators\<close>

text \<open>\<^verbatim>\<open>interface TourState\<close>; \<^verbatim>\<open>currentStep\<close> is a JavaScript number that the code only
  sets to 0, increments and decrements, so it is an integer here.\<close>

record TourState =
  currentStep :: int
  isActive :: bool
  isTyping :: bool
  hasCompleted :: bool

text \<open>
  Every call that the tour makes on a collaborator (\<^verbatim>\<open>window.catGuide\<close>,
  \<^verbatim>\<open>window.soundManager\<close>, \<^verbatim>\<open>window.tourSpotlight\<close>, \<^verbatim>\<open>window.speechBubble\<close>) or on the
  browser (\<^verbatim>\<open>window.location.href = ...\<close>, \<^verbatim>\<open>history.replaceState\<close>,
  \<^verbatim>\<open>document.addEventListener\<close>) is recorded, in order, in the field \<open>calls\<close> of the
  world. \<^verbatim>\<open>show()\<close> without an argument is \<open>SpotlightShow None\<close>.
\<close>

datatype call =
    CatSetAnimation animation
  | CatShow
  | SoundInit
  | SoundPlayMeow
  | SoundPlayPurr
  | SoundPlaySuccess
  | SoundStartAmbientPurr
  | SpotlightSetWelcomeMode bool
  | SpotlightShow "bool option"
  | SpotlightHide
  | SpotlightHighlightElement "string option"
  | BubbleSetStep int int
  | BubbleShow "bool option"
  | BubbleHide
  | BubbleTypeMessage string nat
  | BubbleSkipTyping string
  | LocationAssign string
  | HistoryReplaceState string
  | AddKeydownListener
  | AddClickListener

text \<open>\<^verbatim>\<open>window.location\<close>, already parsed: the path, the query as the list of its
  name/value pairs, and the fragment.\<close>

record location =
  pathname :: string
  search :: "(string \<times> string) list"
  hash :: string

text \<open>The three closures that \<^verbatim>\<open>initTour\<close> hands to \<^verbatim>\<open>setTimeout\<close>: the outer one,
  the one of the cross-page branch, and \<^verbatim>\<open>() => { startTour(); }\<close>.\<close>

datatype callback = InitSettled | ContinueTour | BeginTour

text \<open>
  The world of one page: the module's \<^verbatim>\<open>state\<close> and \<^verbatim>\<open>tourSteps\<close>, the local storage
  (\<open>storageAvailable\<close> is false when every access to it throws, which each accessor
  catches), the location, which collaborators are mounted on \<^verbatim>\<open>window\<close>, the calls
  made so far, the pending timers with their delay in milliseconds, the number of
  \<^verbatim>\<open>renderStep\<close> invocations suspended at \<^verbatim>\<open>await typeMessage(...)\<close>, and the module's
  variable \<^verbatim>\<open>soundsInitialized\<close>.
\<close>

record world =
  state :: TourState
  tourSteps :: "TourStep list"
  localStorage :: "string \<rightharpoonup> string"
  storageAvailable :: bool
  location :: location
  catGuide :: bool
  speechBubble :: bool
  tourSpotlight :: bool
  soundManager :: bool
  calls :: "call list"
  timers :: "(nat \<times> callback) list"
  awaitingReveal :: nat
  soundsInitialized :: bool

text \<open>An operation either returns or throws (a TypeError when a field of an undefined
  step is read, a SecurityError from \<^verbatim>\<open>history.replaceState\<close>); the world at that moment is
  kept in both cases, since what was written before a throw stays written.\<close>

datatype outcome = Returns world | Throws world

fun after :: "outcome \<Rightarrow> world" where
  "after (Returns w) = w"
| "after (Throws w) = w"

fun returned :: "outcome \<Rightarrow> bool" where
  "returned (Returns w) = True"
| "returned (Throws w) = False"

definition STORAGE_KEY :: string where "STORAGE_KEY = ''portfolio_tour_v1''"
definition TOUR_STEP_KEY :: string where "TOUR_STEP_KEY = ''portfolio_tour_step''"
definition TOUR_ACTIVE_KEY :: string where "TOUR_ACTIVE_KEY = ''portfolio_tour_active''"
definition TYPING_SPEED :: nat where "TYPING_SPEED = 25"
definition HOME_PATH :: string where "HOME_PATH = ''/''"
definition TOUR_PARAM :: string where "TOUR_PARAM = ''start-tour''"

definition emit :: "call \<Rightarrow> world \<Rightarrow> world" where
  "emit c w = w\<lparr>calls := calls w @ [c]\<rparr>"

definition setTimeout :: "callback \<Rightarrow> nat \<Rightarrow> world \<Rightarrow> world" where
  "setTimeout cb ms w = w\<lparr>timers := timers w @ [(ms, cb)]\<rparr>"

text \<open>\<^verbatim>\<open>localStorage.setItem\<close> and \<^verbatim>\<open>removeItem\<close> inside \<^verbatim>\<open>try { ... } catch { }\<close>.\<close>

definition setItem :: "string \<Rightarrow> string \<Rightarrow> world \<Rightarrow> world" where
  "setItem k v w =
     (if storageAvailable w then w\<lparr>localStorage := (localStorage w)(k \<mapsto> v)\<rparr> else w)"

definition removeItem :: "string \<Rightarrow> world \<Rightarrow> world" where
  "removeItem k w =
     (if storageAvailable w then w\<lparr>localStorage := (localStorage w)(k := None)\<rparr> else w)"

text \<open>\<^verbatim>\<open>localStorage.getItem\<close>; \<open>None\<close> when the key is absent or the access throws.\<close>

definition getItem :: "string \<Rightarrow> world \<Rightarrow> string option" where
  "getItem k w = (if storageAvailable w then localStorage w k else None)"

definition setTourActive :: "bool \<Rightarrow> world \<Rightarrow> world" where
  "setTourActive active w =
     (if active then setItem TOUR_ACTIVE_KEY ''true'' w else removeItem TOUR_ACTIVE_KEY w)"

definition isTourActive :: "world \<Rightarrow> bool" where
  "isTourActive w = (getItem TOUR_ACTIVE_KEY w = Some ''true'')"

definition hasCompletedTour :: "world \<Rightarrow> bool" where
  "hasCompletedTour w = (getItem STORAGE_KEY w = Some ''true'')"

definition markTourCompleted :: "world \<Rightarrow> world" where
  "markTourCompleted w = setItem STORAGE_KEY ''true'' w"

definition isHomePage :: "world \<Rightarrow> bool" where
  "isHomePage w =
     (pathname (location w) = HOME_PATH \<or> pathname (location w) = ''/index.html'')"

text \<open>\<^verbatim>\<open>path.endsWith('/') && path !== '/'\<close>, then \<^verbatim>\<open>path.slice(0, -1)\<close>.\<close>

definition getCurrentPage :: "world \<Rightarrow> string" where
  "getCurrentPage w =
     (let path = pathname (location w)
      in if (path \<noteq> [] \<and> last path = CHR ''/'') \<and> path \<noteq> ''/'' then butlast path else path)"

text \<open>\<^verbatim>\<open>new URLSearchParams(window.location.search).has(TOUR_PARAM)\<close>.\<close>

definition shouldStartFromUrl :: "world \<Rightarrow> bool" where
  "shouldStartFromUrl w = (TOUR_PARAM \<in> set (map fst (search (location w))))"

text \<open>
  \<^verbatim>\<open>history.replaceState({}, '', url)\<close> for a \<open>url\<close> that is a path. The browser resolves it
  against the URL of the page. A path that begins with one slash keeps the origin and has
  neither query nor fragment: the location becomes that bare path, and no page is loaded.
  A path that begins with two slashes is a scheme-relative reference: what follows the
  slashes is read as a host, so the reference names another origin (the model does not
  cover a page whose path repeats the page's own host there, as in \<^verbatim>\<open>https://h//h/x\<close>), and
  \<^verbatim>\<open>replaceState\<close> throws a SecurityError and changes nothing.
\<close>

definition schemeRelative :: "string \<Rightarrow> bool" where
  "schemeRelative url = (take 2 url = ''//'')"

definition replaceState :: "string \<Rightarrow> world \<Rightarrow> outcome" where
  "replaceState url w =
     (if schemeRelative url then Throws w
      else Returns (emit (HistoryReplaceState url)
                      (w\<lparr>location := \<lparr>pathname = url, search = [], hash = []\<rparr>\<rparr>)))"

text \<open>
  \<^verbatim>\<open>clearTourParam\<close>: a copy of the current URL loses the tour parameter, and then
  only the copy's \<^verbatim>\<open>pathname\<close> is passed to \<^verbatim>\<open>history.replaceState\<close>, whose exception is
  not caught.
\<close>

definition clearTourParam :: "world \<Rightarrow> outcome" where
  "clearTourParam w =
     (let url = location w;
          url = url\<lparr>search := filter (\<lambda>kv. fst kv \<noteq> TOUR_PARAM) (search url)\<rparr>
      in replaceState (pathname url) w)"

definition clearSavedTourStep :: "world \<Rightarrow> world" where
  "clearSavedTourStep w = removeItem TOUR_STEP_KEY w"

section \<open>The tour state machine\<close>

text \<open>\<^verbatim>\<open>tourSteps[state.currentStep]\<close>: \<open>None\<close> is JavaScript's \<^verbatim>\<open>undefined\<close>, the value
  of an index outside the array.\<close>

definition getCurrentStep :: "world \<Rightarrow> TourStep option" where
  "getCurrentStep w =
     (let i = currentStep (state w)
      in if 0 \<le> i \<and> i < int (length (tourSteps w)) then Some (tourSteps w ! nat i) else None)"

definition loadTourForCurrentPage :: "world \<Rightarrow> world" where
  "loadTourForCurrentPage w = w\<lparr>tourSteps := getTourStepsForPage (getCurrentPage w)\<rparr>"

text \<open>\<^verbatim>\<open>if (step.welcomeMode)\<close>: an absent field is falsy.\<close>

definition truthy_flag :: "bool option \<Rightarrow> bool" where
  "truthy_flag b = (case b of None \<Rightarrow> False | Some v \<Rightarrow> v)"

text \<open>
  \<^verbatim>\<open>renderStep\<close> up to its \<^verbatim>\<open>await\<close>: the calls on the collaborators that are mounted,
  in the order of the source, and \<^verbatim>\<open>state.isTyping = true\<close>. Reading a field of an
  undefined step throws a TypeError before any call is made (at the latest in
  \<^verbatim>\<open>step.animation === 'celebrating'\<close>). The assignment \<^verbatim>\<open>state.isTyping = false\<close> after
  the \<^verbatim>\<open>await\<close> is the separate event \<open>typeMessageResolved\<close>.
\<close>

definition renderStep :: "world \<Rightarrow> outcome" where
  "renderStep w =
     (case getCurrentStep w of
        None \<Rightarrow> Throws w
      | Some step \<Rightarrow>
          let w1 = (if catGuide w then emit (CatSetAnimation (animation step)) w else w);
              w2 = (if animation step = Celebrating \<and> soundManager w1
                    then emit SoundPlayPurr w1 else w1);
              w3 = (if tourSpotlight w2 then
                      (if truthy_flag (welcomeMode step)
                       then emit (SpotlightShow (Some True))
                              (emit (SpotlightSetWelcomeMode True) w2)
                       else emit (SpotlightHighlightElement (target step))
                              (emit (SpotlightShow None)
                                (emit (SpotlightSetWelcomeMode False) w2)))
                    else w2);
              w4 = (if speechBubble w3 then
                      (let w5 = emit (BubbleSetStep (currentStep (state w3) + 1)
                                        (int (length (tourSteps w3)))) w3;
                           w6 = emit (BubbleShow (welcomeMode step)) w5;
                           w7 = w6\<lparr>state := (state w6)\<lparr>isTyping := True\<rparr>\<rparr>
                       in (emit (BubbleTypeMessage (message step) TYPING_SPEED) w7)
                            \<lparr>awaitingReveal := Suc (awaitingReveal w7)\<rparr>)
                    else w3)
          in Returns w4)"

text \<open>The continuation of a suspended \<^verbatim>\<open>renderStep\<close>: \<^verbatim>\<open>state.isTyping = false\<close>, run
  when the promise of \<^verbatim>\<open>typeMessage\<close> resolves.\<close>

definition typeMessageResolved :: "world \<Rightarrow> world" where
  "typeMessageResolved w =
     (if awaitingReveal w = 0 then w
      else w\<lparr>state := (state w)\<lparr>isTyping := False\<rparr>, awaitingReveal := awaitingReveal w - 1\<rparr>)"

definition completeTour :: "world \<Rightarrow> world" where
  "completeTour w =
     (let w1 = w\<lparr>state := (state w)\<lparr>isActive := False, hasCompleted := True\<rparr>\<rparr>;
          w2 = markTourCompleted w1;
          w3 = clearSavedTourStep w2;
          w4 = setTourActive False w3;
          w5 = (if soundManager w4 then emit SoundPlaySuccess w4 else w4);
          w6 = (if tourSpotlight w5 then emit SpotlightHide w5 else w5);
          w7 = (if speechBubble w6 then emit BubbleHide w6 else w6)
      in if catGuide w7 then emit (CatSetAnimation Idle) w7 else w7)"

definition skipTour :: "world \<Rightarrow> world" where
  "skipTour w = completeTour (setTourActive False w)"

text \<open>In \<open>nextStep\<close>, \<^verbatim>\<open>if (currentStep.navigateTo)\<close> is false for an absent field and for
  the empty string.\<close>

definition nextStep :: "world \<Rightarrow> outcome" where
  "nextStep w =
     (if \<not> isActive (state w) then Returns w
      else if isTyping (state w) \<and> speechBubble w then
        (case getCurrentStep w of
           None \<Rightarrow> Throws w
         | Some step \<Rightarrow>
             (let w1 = emit (BubbleSkipTyping (message step)) w
              in Returns (w1\<lparr>state := (state w1)\<lparr>isTyping := False\<rparr>\<rparr>)))
      else if currentStep (state w) < int (length (tourSteps w)) - 1 then
        (let w1 = w\<lparr>state := (state w)\<lparr>currentStep := currentStep (state w) + 1\<rparr>\<rparr>;
             w2 = (if soundManager w1 \<and> currentStep (state w1) mod 2 = 0
                   then emit SoundPlayMeow w1 else w1)
         in renderStep w2)
      else
        (case getCurrentStep w of
           None \<Rightarrow> Throws w
         | Some step \<Rightarrow>
             (case navigateTo step of
                None \<Rightarrow> Returns (completeTour w)
              | Some url \<Rightarrow>
                  if url \<noteq> []
                  then Returns (emit (LocationAssign url) (setTourActive True w))
                  else Returns (completeTour w))))"

definition prevStep :: "world \<Rightarrow> outcome" where
  "prevStep w =
     (if \<not> isActive (state w) then Returns w
      else if currentStep (state w) > 0 then
        renderStep (w\<lparr>state := (state w)\<lparr>currentStep := currentStep (state w) - 1\<rparr>\<rparr>)
      else Returns w)"

definition startTour :: "world \<Rightarrow> outcome" where
  "startTour w =
     (let w1 = (if soundManager w
                then emit SoundStartAmbientPurr (emit SoundPlayMeow (emit SoundInit w)) else w);
          w2 = loadTourForCurrentPage w1;
          w3 = w2\<lparr>state := (state w2)\<lparr>currentStep := 0, isActive := True, hasCompleted := False\<rparr>\<rparr>;
          w4 = setTourActive True w3;
          w5 = (if catGuide w4 then emit CatShow w4 else w4)
      in renderStep w5)"

definition restartTour :: "world \<Rightarrow> outcome" where
  "restartTour w = startTour w"

section \<open>Listeners\<close>

text \<open>The listener that \<^verbatim>\<open>setupKeyboardNav\<close> registers; \<open>key\<close> is \<^verbatim>\<open>e.key\<close>.\<close>

definition onKeydown :: "string \<Rightarrow> world \<Rightarrow> outcome" where
  "onKeydown key w =
     (if \<not> isActive (state w) then Returns w
      else if key = ''Enter'' \<or> key = ''ArrowRight'' \<or> key = '' '' then nextStep w
      else if key = ''ArrowLeft'' then prevStep w
      else if key = ''Escape'' then Returns (skipTour w)
      else Returns w)"

text \<open>The listener that \<^verbatim>\<open>setupButtonControls\<close> registers; \<open>closest sel\<close> says whether
  \<^verbatim>\<open>target.closest(sel)\<close> finds an element.\<close>

definition onClick :: "(string \<Rightarrow> bool) \<Rightarrow> world \<Rightarrow> outcome" where
  "onClick closest w =
     (if closest ''#tour-next'' then nextStep w
      else if closest ''#tour-prev'' then prevStep w
      else if closest ''#tour-skip'' then Returns (skipTour w)
      else if closest ''#cat-guide'' \<and> \<not> isActive (state w) then
        restartTour (if soundManager w then emit SoundPlayPurr (emit SoundInit w) else w)
      else if closest ''#restart-tour'' then restartTour w
      else Returns w)"

text \<open>\<^verbatim>\<open>initSoundsOnInteraction\<close>, the listener for the first click or key press.\<close>

definition initSoundsOnInteraction :: "world \<Rightarrow> world" where
  "initSoundsOnInteraction w =
     (if soundsInitialized w then w
      else
        (let w1 = w\<lparr>soundsInitialized := True\<rparr>
         in if soundManager w1 then emit SoundStartAmbientPurr (emit SoundInit w1) else w1))"

section \<open>Page load\<close>

text \<open>
  A page load evaluates the module afresh: the initial \<^verbatim>\<open>state\<close>, an empty
  \<^verbatim>\<open>tourSteps\<close>, nothing called, no timer. The local storage is what the previous pages
  left; the location is the one being loaded; \<open>cg\<close>, \<open>sb\<close>, \<open>ts\<close> and \<open>sm\<close> say which
  collaborators the page mounts.
\<close>

definition freshPage ::
  "(string \<rightharpoonup> string) \<Rightarrow> bool \<Rightarrow> location \<Rightarrow> bool \<Rightarrow> bool \<Rightarrow> bool \<Rightarrow> bool \<Rightarrow> world" where
  "freshPage store avail loc cg sb ts sm =
     \<lparr>state = \<lparr>currentStep = 0, isActive = False, isTyping = False, hasCompleted = False\<rparr>,
      tourSteps = [], localStorage = store, storageAvailable = avail, location = loc,
      catGuide = cg, speechBubble = sb, tourSpotlight = ts, soundManager = sm,
      calls = [], timers = [], awaitingReveal = 0, soundsInitialized = False\<rparr>"

text \<open>\<^verbatim>\<open>initTour\<close>: load the script, then schedule the rest after 100 ms.\<close>

definition initTour :: "world \<Rightarrow> world" where
  "initTour w = setTimeout InitSettled 100 (loadTourForCurrentPage w)"

text \<open>The body of the outer closure of \<^verbatim>\<open>initTour\<close>; the two \<^verbatim>\<open>setup...\<close> functions
  register one listener each. When \<^verbatim>\<open>clearTourParam\<close> throws, the closure ends there, before
  the timer that would start the tour is set.\<close>

definition initSettled :: "world \<Rightarrow> outcome" where
  "initSettled w =
     (let w1 = emit AddClickListener (emit AddKeydownListener w)
      in if isTourActive w1 then Returns (setTimeout ContinueTour 500 w1)
         else if shouldStartFromUrl w1 then
           (case clearTourParam w1 of
              Throws w2 \<Rightarrow> Throws w2
            | Returns w2 \<Rightarrow> Returns (setTimeout BeginTour 500 w2))
         else if isHomePage w1 \<and> \<not> hasCompletedTour w1
           then Returns (setTimeout BeginTour 1000 w1)
         else if catGuide w1 then Returns (emit CatShow w1)
         else Returns w1)"

text \<open>The body of the closure of the cross-page branch.\<close>

definition continueTour :: "world \<Rightarrow> outcome" where
  "continueTour w =
     startTour (if soundManager w
                then emit SoundStartAmbientPurr (emit SoundPlayMeow (emit SoundInit w)) else w)"

fun runCallback :: "callback \<Rightarrow> world \<Rightarrow> outcome" where
  "runCallback InitSettled w = initSettled w"
| "runCallback ContinueTour w = continueTour w"
| "runCallback BeginTour w = startTour w"

text \<open>The \<open>i\<close>-th pending timer fires: it leaves the list and its closure runs.\<close>

definition fireTimer :: "nat \<Rightarrow> world \<Rightarrow> outcome" where
  "fireTimer i w =
     (if i < length (timers w)
      then runCallback (snd (timers w ! i)) (w\<lparr>timers := take i (timers w) @ drop (Suc i) (timers w)\<rparr>)
      else Returns w)"

section \<open>The self-contained variant of the tour script\<close>

text \<open>
  The repository holds a second copy of the tour script, without \<^verbatim>\<open>TOUR_ACTIVE_KEY\<close> and
  without calls on the sound manager: each page's tour ends on its own page. Its
  \<^verbatim>\<open>renderStep\<close>, \<^verbatim>\<open>nextStep\<close>, \<^verbatim>\<open>skipTour\<close> and \<^verbatim>\<open>completeTour\<close> are embedded here under
  the suffix \<open>_selfContained\<close>, to record where the two copies differ; \<^verbatim>\<open>prevStep\<close> and
  \<^verbatim>\<open>clearTourParam\<close> are the same text in both. In this \<^verbatim>\<open>renderStep\<close> an undefined step
  is only read by the collaborators that are mounted, and the bubble's \<^verbatim>\<open>setStep\<close> is called
  before the first such read when the bubble is the only one.
\<close>

definition renderStep_selfContained :: "world \<Rightarrow> outcome" where
  "renderStep_selfContained w =
     (if \<not> catGuide w \<and> \<not> tourSpotlight w \<and> \<not> speechBubble w then Returns w
      else
        (case getCurrentStep w of
           None \<Rightarrow>
             if \<not> catGuide w \<and> \<not> tourSpotlight w
             then Throws (emit (BubbleSetStep (currentStep (state w) + 1)
                                  (int (length (tourSteps w)))) w)
             else Throws w
         | Some step \<Rightarrow>
             let w1 = (if catGuide w then emit (CatSetAnimation (animation step)) w else w);
                 w3 = (if tourSpotlight w1 then
                         (if truthy_flag (welcomeMode step)
                          then emit (SpotlightShow (Some True))
                                 (emit (SpotlightSetWelcomeMode True) w1)
                          else emit (SpotlightHighlightElement (target step))
                                 (emit (SpotlightShow None)
                                   (emit (SpotlightSetWelcomeMode False) w1)))
                       else w1);
                 w4 = (if speechBubble w3 then
                         (let w5 = emit (BubbleSetStep (currentStep (state w3) + 1)
                                           (int (length (tourSteps w3)))) w3;
                              w6 = emit (BubbleShow (welcomeMode step)) w5;
                              w7 = w6\<lparr>state := (state w6)\<lparr>isTyping := True\<rparr>\<rparr>
                          in (emit (BubbleTypeMessage (message step) TYPING_SPEED) w7)
                               \<lparr>awaitingReveal := Suc (awaitingReveal w7)\<rparr>)
                       else w3)
             in Returns w4))"

definition completeTour_selfContained :: "world \<Rightarrow> world" where
  "completeTour_selfContained w =
     (let w1 = w\<lparr>state := (state w)\<lparr>isActive := False, hasCompleted := True\<rparr>\<rparr>;
          w2 = markTourCompleted w1;
          w3 = clearSavedTourStep w2;
          w6 = (if tourSpotlight w3 then emit SpotlightHide w3 else w3);
          w7 = (if speechBubble w6 then emit BubbleHide w6 else w6)
      in if catGuide w7 then emit (CatSetAnimation Idle) w7 else w7)"

definition skipTour_selfContained :: "world \<Rightarrow> world" where
  "skipTour_selfContained w = completeTour_selfContained w"

definition nextStep_selfContained :: "world \<Rightarrow> outcome" where
  "nextStep_selfContained w =
     (if \<not> isActive (state w) then Returns w
      else if isTyping (state w) \<and> speechBubble w then
        (case getCurrentStep w of
           None \<Rightarrow> Throws w
         | Some step \<Rightarrow>
             (let w1 = emit (BubbleSkipTyping (message step)) w
              in Returns (w1\<lparr>state := (state w1)\<lparr>isTyping := False\<rparr>\<rparr>)))
      else if currentStep (state w) < int (length (tourSteps w)) - 1 then
        renderStep_selfContained
          (w\<lparr>state := (state w)\<lparr>currentStep := currentStep (state w) + 1\<rparr>\<rparr>)
      else Returns (completeTour_selfContained w))"

section \<open>The sound manager\<close>

text \<open>
  What a call of one of the \<^verbatim>\<open>play...\<close> methods sends to the audio output. The
  oscillators, filters and envelopes that shape each sound are not part of this model: a
  sound is one token.
\<close>

datatype sound = TypingSound | Meow | Purr | Success

text \<open>
  The object \<^verbatim>\<open>soundManager\<close> with its four data fields (\<open>audioContext\<close> is true once
  the context has been created), together with what it touches in the window: the timers
  it has set and that have neither fired nor been cleared, as pairs of handle and delay
  in milliseconds (the closure of each is \<^verbatim>\<open>playRandomPurr\<close>), the handle that the
  next \<^verbatim>\<open>setTimeout\<close> returns, the sounds sent to the output so far, and whether the
  browser can construct an \<^verbatim>\<open>AudioContext\<close>.
\<close>

record SoundManager =
  audioContext :: bool
  isEnabled :: bool
  volume :: real
  purrInterval :: "nat option"
  pending :: "(nat \<times> real) list"
  nextHandle :: nat
  played :: "sound list"
  audioSupported :: bool

text \<open>The object literal; \<^verbatim>\<open>setTimeout\<close> returns handles greater than zero, \<open>h\<close> is the
  first one this page will hand out.\<close>

definition soundManager0 :: "bool \<Rightarrow> nat \<Rightarrow> SoundManager" where
  "soundManager0 supported h =
     \<lparr>audioContext = False, isEnabled = True, volume = 0.5, purrInterval = None,
      pending = [], nextHandle = h, played = [], audioSupported = supported\<rparr>"

definition init :: "SoundManager \<Rightarrow> SoundManager" where
  "init a =
     (if \<not> audioContext a then
        (if audioSupported a then a\<lparr>audioContext := True\<rparr> else a\<lparr>isEnabled := False\<rparr>)
      else a)"

definition playTypingSound :: "SoundManager \<Rightarrow> SoundManager" where
  "playTypingSound a =
     (if \<not> isEnabled a \<or> \<not> audioContext a then a else a\<lparr>played := played a @ [TypingSound]\<rparr>)"

definition playMeow :: "SoundManager \<Rightarrow> SoundManager" where
  "playMeow a =
     (if \<not> isEnabled a \<or> \<not> audioContext a then a else a\<lparr>played := played a @ [Meow]\<rparr>)"

definition playPurr :: "SoundManager \<Rightarrow> SoundManager" where
  "playPurr a =
     (if \<not> isEnabled a \<or> \<not> audioContext a then a else a\<lparr>played := played a @ [Purr]\<rparr>)"

definition playSuccess :: "SoundManager \<Rightarrow> SoundManager" where
  "playSuccess a =
     (if \<not> isEnabled a \<or> \<not> audioContext a then a else a\<lparr>played := played a @ [Success]\<rparr>)"

text \<open>\<^verbatim>\<open>this.purrInterval = window.setTimeout(() => { playRandomPurr(); }, ms)\<close>.\<close>

definition schedulePurr :: "real \<Rightarrow> SoundManager \<Rightarrow> SoundManager" where
  "schedulePurr ms a =
     a\<lparr>pending := pending a @ [(nextHandle a, ms)],
       purrInterval := Some (nextHandle a),
       nextHandle := Suc (nextHandle a)\<rparr>"

text \<open>\<^verbatim>\<open>if (this.purrInterval)\<close>: \<^verbatim>\<open>null\<close> and the number 0 are falsy.\<close>

definition truthy_handle :: "nat option \<Rightarrow> bool" where
  "truthy_handle h = (case h of None \<Rightarrow> False | Some n \<Rightarrow> n \<noteq> 0)"

definition startAmbientPurr :: "SoundManager \<Rightarrow> SoundManager" where
  "startAmbientPurr a = (if truthy_handle (purrInterval a) then a else schedulePurr 2000 a)"

text \<open>The closure \<^verbatim>\<open>playRandomPurr\<close>; \<open>r\<close> is what \<^verbatim>\<open>Math.random()\<close> returns.\<close>

definition playRandomPurr :: "real \<Rightarrow> SoundManager \<Rightarrow> SoundManager" where
  "playRandomPurr r a =
     (let a1 = (if isEnabled a \<and> audioContext a then playPurr a else a);
          nextDelay = 5000 + r * 5000
      in schedulePurr nextDelay a1)"

definition clearTimeout :: "nat \<Rightarrow> SoundManager \<Rightarrow> SoundManager" where
  "clearTimeout h a = a\<lparr>pending := filter (\<lambda>t. fst t \<noteq> h) (pending a)\<rparr>"

definition stopAmbientPurr :: "SoundManager \<Rightarrow> SoundManager" where
  "stopAmbientPurr a =
     (case purrInterval a of
        None \<Rightarrow> a
      | Some h \<Rightarrow> if h \<noteq> 0 then (clearTimeout h a)\<lparr>purrInterval := None\<rparr> else a)"

definition setEnabled :: "bool \<Rightarrow> SoundManager \<Rightarrow> SoundManager" where
  "setEnabled enabled a =
     (let a1 = a\<lparr>isEnabled := enabled\<rparr>
      in if \<not> enabled then stopAmbientPurr a1 else a1)"

definition setVolume :: "real \<Rightarrow> SoundManager \<Rightarrow> SoundManager" where
  "setVolume v a = a\<lparr>volume := max 0 (min 1 v)\<rparr>"

text \<open>The pending timer with handle \<open>h\<close> fires: it leaves the list and its closure
  runs, with \<open>r\<close> drawn by \<^verbatim>\<open>Math.random()\<close>. A handle that is not pending does nothing.\<close>

definition timerFires :: "nat \<Rightarrow> real \<Rightarrow> SoundManager \<Rightarrow> SoundManager" where
  "timerFires h r a =
     (if h \<in> set (map fst (pending a))
      then playRandomPurr r (a\<lparr>pending := filter (\<lambda>t. fst t \<noteq> h) (pending a)\<rparr>)
      else a)"

text \<open>A sequence of timer firings, each with its handle and its random draw.\<close>

fun timersFire :: "(nat \<times> real) list \<Rightarrow> SoundManager \<Rightarrow> SoundManager" where
  "timersFire [] a = a"
| "timersFire (e # es) a = timersFire es (timerFires (fst e) (snd e) a)"

text \<open>The states of the sound manager that a page can be in: the object literal, and
  whatever its methods and its timers make of it.\<close>

inductive reachableSound :: "SoundManager \<Rightarrow> bool" where
  rs_initial: "0 < h \<Longrightarrow> reachableSound (soundManager0 supported h)"
| rs_init: "reachableSound a \<Longrightarrow> reachableSound (init a)"
| rs_playTypingSound: "reachableSound a \<Longrightarrow> reachableSound (playTypingSound a)"
| rs_playMeow: "reachableSound a \<Longrightarrow> reachableSound (playMeow a)"
| rs_playPurr: "reachableSound a \<Longrightarrow> reachableSound (playPurr a)"
| rs_playSuccess: "reachableSound a \<Longrightarrow> reachableSound (playSuccess a)"
| rs_startAmbientPurr: "reachableSound a \<Longrightarrow> reachableSound (startAmbientPurr a)"
| rs_stopAmbientPurr: "reachableSound a \<Longrightarrow> reachableSound (stopAmbientPurr a)"
| rs_setEnabled: "reachableSound a \<Longrightarrow> reachableSound (setEnabled enabled a)"
| rs_setVolume: "reachableSound a \<Longrightarrow> reachableSound (setVolume v a)"
| rs_timerFires: "reachableSound a \<Longrightarrow> reachableSound (timerFires h r a)"

text \<open>At most one ambient timer is pending, and \<open>purrInterval\<close> holds its handle.\<close>

definition oneAmbientTimer :: "SoundManager \<Rightarrow> bool" where
  "oneAmbientTimer a =
     (0 < nextHandle a \<and>
      (case purrInterval a of
         None \<Rightarrow> pending a = []
       | Some h \<Rightarrow> 0 < h \<and> h < nextHandle a \<and> map fst (pending a) = [h]))"

section \<open>Notions used to state the properties\<close>

text \<open>The step index points into the loaded script.\<close>

definition inRange :: "world \<Rightarrow> bool" where
  "inRange w = (0 \<le> currentStep (state w) \<and> currentStep (state w) < int (length (tourSteps w)))"

text \<open>The calls that were made between the world \<open>w\<close> and the later world \<open>w'\<close>.\<close>

definition newCalls :: "world \<Rightarrow> world \<Rightarrow> call list" where
  "newCalls w w' = drop (length (calls w)) (calls w')"

text \<open>What \<open>startTour\<close> has done when it calls \<open>renderStep\<close>.\<close>

definition startPrefix :: "world \<Rightarrow> world" where
  "startPrefix w =
     (let w1 = (if soundManager w
                then emit SoundStartAmbientPurr (emit SoundPlayMeow (emit SoundInit w)) else w);
          w2 = loadTourForCurrentPage w1;
          w3 = w2\<lparr>state := (state w2)\<lparr>currentStep := 0, isActive := True, hasCompleted := False\<rparr>\<rparr>;
          w4 = setTourActive True w3
      in (if catGuide w4 then emit CatShow w4 else w4))"

text \<open>What \<open>nextStep\<close> has done when it calls \<open>renderStep\<close>.\<close>

definition nextPrefix :: "world \<Rightarrow> world" where
  "nextPrefix w =
     (let w1 = w\<lparr>state := (state w)\<lparr>currentStep := currentStep (state w) + 1\<rparr>\<rparr>
      in if soundManager w1 \<and> currentStep (state w1) mod 2 = 0
         then emit SoundPlayMeow w1 else w1)"

text \<open>
  The worlds that a page can be in: a freshly loaded page, and whatever the page's own
  initialisation, its timers, the operations exported as \<^verbatim>\<open>window.portfolioTour\<close>, the end
  of a message reveal and the listeners for keys and clicks make of it.
\<close>

inductive reachable :: "world \<Rightarrow> bool" where
  r_load: "reachable (freshPage store avail loc cg sb ts sm)"
| r_initTour: "reachable w \<Longrightarrow> reachable (initTour w)"
| r_fireTimer: "reachable w \<Longrightarrow> reachable (after (fireTimer i w))"
| r_startTour: "reachable w \<Longrightarrow> reachable (after (startTour w))"
| r_nextStep: "reachable w \<Longrightarrow> reachable (after (nextStep w))"
| r_prevStep: "reachable w \<Longrightarrow> reachable (after (prevStep w))"
| r_skipTour: "reachable w \<Longrightarrow> reachable (skipTour w)"
| r_typeMessageResolved: "reachable w \<Longrightarrow> reachable (typeMessageResolved w)"
| r_onKeydown: "reachable w \<Longrightarrow> reachable (after (onKeydown key w))"
| r_onClick: "reachable w \<Longrightarrow> reachable (after (onClick closest w))"
| r_initSoundsOnInteraction: "reachable w \<Longrightarrow> reachable (initSoundsOnInteraction w)"

text \<open>
  What holds in every reachable world: a reveal in progress implies a mounted speech
  bubble and a loaded script, an active tour implies a loaded script, and the step index
  points into the loaded script, which is the script of the current page.
\<close>

definition tourInv :: "world \<Rightarrow> bool" where
  "tourInv w =
     ((isTyping (state w) \<longrightarrow> speechBubble w \<and> tourSteps w \<noteq> []) \<and>
      (isActive (state w) \<longrightarrow> tourSteps w \<noteq> []) \<and>
      0 \<le> currentStep (state w) \<and>
      (if tourSteps w = [] then currentStep (state w) = 0
       else tourSteps w = getTourStepsForPage (getCurrentPage w) \<and>
            currentStep (state w) < int (length (tourSteps w))))"

text \<open>The page load that follows the world \<open>w\<close>: the local storage is carried over,
  everything else is fresh, and \<^verbatim>\<open>initTour\<close> has run.\<close>

definition nextPageLoad :: "world \<Rightarrow> location \<Rightarrow> bool \<Rightarrow> bool \<Rightarrow> bool \<Rightarrow> bool \<Rightarrow> world" where
  "nextPageLoad w loc cg sb ts sm =
     initTour (freshPage (localStorage w) (storageAvailable w) loc cg sb ts sm)"

section \<open>Concrete worlds\<close>

text \<open>The home page, loaded for the first time with every collaborator mounted, and the
  same page once the tour has been started.\<close>

definition demoLoaded :: world where
  "demoLoaded =
     initTour (freshPage Map.empty True \<lparr>pathname = ''/'', search = [], hash = []\<rparr>
                 True True True True)"

definition demoStarted :: world where
  "demoStarted = after (startTour demoLoaded)"

text \<open>A page at \<open>path\<close> whose tour shows the last step of \<open>steps\<close>, the reveal being over.\<close>

definition atLastStep :: "string \<Rightarrow> TourStep list \<Rightarrow> world" where
  "atLastStep path steps =
     \<lparr>state = \<lparr>currentStep = int (length steps) - 1, isActive = True, isTyping = False,
               hasCompleted = False\<rparr>,
      tourSteps = steps, localStorage = Map.empty, storageAvailable = True,
      location = \<lparr>pathname = path, search = [], hash = []\<rparr>,
      catGuide = True, speechBubble = True, tourSpotlight = True, soundManager = True,
      calls = [], timers = [], awaitingReveal = 0, soundsInitialized = False\<rparr>"

text \<open>The about page in the middle of a cross-page tour: second step, reveal in progress,
  the cross-page flag and a saved step in the local storage.\<close>

definition aboutLoc :: location where
  "aboutLoc = \<lparr>pathname = ''/about'', search = [], hash = []\<rparr>"

definition demoMidTour :: world where
  "demoMidTour =
     \<lparr>state = \<lparr>currentStep = 1, isActive = True, isTyping = True, hasCompleted = False\<rparr>,
      tourSteps = aboutTour,
      localStorage = [TOUR_ACTIVE_KEY \<mapsto> ''true'', TOUR_STEP_KEY \<mapsto> ''1''],
      storageAvailable = True, location = aboutLoc,
      catGuide = True, speechBubble = True, tourSpotlight = True, soundManager = True,
      calls = [], timers = [], awaitingReveal = 1, soundsInitialized = True\<rparr>"

text \<open>The skills page loaded from a link that carries the start marker, another query
  parameter and a fragment.\<close>

definition markedLoc :: location where
  "markedLoc =
     \<lparr>pathname = ''/skills'', search = [(''start-tour'', []), (''ref'', ''mail'')],
       hash = ''#top''\<rparr>"

definition demoMarked :: world where
  "demoMarked = initTour (freshPage Map.empty True markedLoc True True True True)"

text \<open>A page loaded from \<^verbatim>\<open>https://site.example//elsewhere.example/about?start-tour#top\<close>:
  the path begins with two slashes.\<close>

definition doubleSlashLoc :: location where
  "doubleSlashLoc =
     \<lparr>pathname = ''//elsewhere.example/about'', search = [(''start-tour'', [])],
       hash = ''#top''\<rparr>"

definition demoDoubleSlash :: world where
  "demoDoubleSlash = initTour (freshPage Map.empty True doubleSlashLoc True True True True)"

text \<open>A sound manager with a context, disabled before any ambient purr was started.\<close>

definition quietSound :: SoundManager where
  "quietSound = setEnabled False (init (soundManager0 True 1))"

text \<open>A sound manager that has created its context, started the ambient purr and purred once.\<close>

definition demoSound :: SoundManager where
  "demoSound = playPurr (startAmbientPurr (init (soundManager0 True 1)))"

section \<open>The registry: every script is non-empty and chained\<close>

lemmas script_defs = homeTour_def aboutTour_def skillsTour_def projectsTour_def
  experienceTour_def contactTour_def blogTour_def

lemma pageTours_cases:
  assumes "pageTours q = Some steps"
  shows "(q, steps) \<in> set pageTours_table"
  using assms unfolding pageTours_def by (rule map_of_SomeD)

lemma pageTours_home: "pageTours ''/'' = Some homeTour"
  by (simp add: pageTours_def pageTours_table_def)

lemma registered_script:
  assumes "pageTours q = Some steps"
  shows "steps \<in> {homeTour, aboutTour, skillsTour, projectsTour, experienceTour, contactTour, blogTour}"
  using pageTours_cases [OF assms] by (auto simp: pageTours_table_def)

lemma script_lengths:
  "length homeTour = 6" "length aboutTour = 4" "length skillsTour = 3"
  "length projectsTour = 3" "length experienceTour = 3" "length contactTour = 3"
  "length blogTour = 3"
  by (simp_all add: script_defs)

lemma registered_length:
  assumes "pageTours q = Some steps"
  shows "3 \<le> length steps"
  using registered_script [OF assms] by (auto simp: script_lengths)

lemma getTourStepsForPage_length: "3 \<le> length (getTourStepsForPage pg)"
  by (cases "pageTours pg") (simp_all add: getTourStepsForPage_def script_lengths registered_length)

lemma getTourStepsForPage_nonempty: "getTourStepsForPage pg \<noteq> []"
  using getTourStepsForPage_length [of pg] by auto

lemma dom_pageTours:
  "dom pageTours = {''/'', ''/about'', ''/skills'', ''/projects'', ''/experience'', ''/contact'', ''/blog''}"
  by (auto simp: pageTours_def pageTours_table_def dom_map_of_conv_image_fst)

lemma last_navigateTo:
  "navigateTo (last homeTour) = Some ''/about''"
  "navigateTo (last aboutTour) = Some ''/skills''"
  "navigateTo (last skillsTour) = Some ''/projects''"
  "navigateTo (last projectsTour) = Some ''/experience''"
  "navigateTo (last experienceTour) = Some ''/contact''"
  "navigateTo (last contactTour) = Some ''/blog''"
  "navigateTo (last blogTour) = None"
  by (simp_all add: script_defs)

lemma registered_continuation:
  assumes "pageTours q = Some steps"
  shows "case navigateTo (last steps) of None \<Rightarrow> True | Some u \<Rightarrow> u \<in> dom pageTours"
  using registered_script [OF assms] by (auto simp: last_navigateTo dom_pageTours)

section \<open>Rendering a step\<close>

lemmas key_defs = STORAGE_KEY_def TOUR_STEP_KEY_def TOUR_ACTIVE_KEY_def
lemmas storage_defs = setItem_def removeItem_def getItem_def setTourActive_def isTourActive_def
  hasCompletedTour_def markTourCompleted_def clearSavedTourStep_def

lemma getCurrentStep_inRange:
  "inRange w \<Longrightarrow> getCurrentStep w = Some (tourSteps w ! nat (currentStep (state w)))"
  by (simp add: inRange_def getCurrentStep_def)

lemma renderStep_inRange:
  assumes "inRange w"
  shows "returned (renderStep w)"
    and "tourSteps (after (renderStep w)) = tourSteps w"
    and "currentStep (state (after (renderStep w))) = currentStep (state w)"
    and "isActive (state (after (renderStep w))) = isActive (state w)"
    and "hasCompleted (state (after (renderStep w))) = hasCompleted (state w)"
    and "isTyping (state (after (renderStep w))) = (speechBubble w \<or> isTyping (state w))"
    and "awaitingReveal (after (renderStep w))
           = (if speechBubble w then Suc (awaitingReveal w) else awaitingReveal w)"
    and "localStorage (after (renderStep w)) = localStorage w"
    and "storageAvailable (after (renderStep w)) = storageAvailable w"
    and "location (after (renderStep w)) = location w"
    and "speechBubble (after (renderStep w)) = speechBubble w"
    and "timers (after (renderStep w)) = timers w"
  using getCurrentStep_inRange [OF assms]
  by (simp_all add: renderStep_def Let_def emit_def)

lemma renderStep_calls:
  assumes "inRange w"
  shows "calls (after (renderStep w)) = calls w @
     (let step = tourSteps w ! nat (currentStep (state w)) in
      (if catGuide w then [CatSetAnimation (animation step)] else []) @
      (if animation step = Celebrating \<and> soundManager w then [SoundPlayPurr] else []) @
      (if tourSpotlight w then
         (if truthy_flag (welcomeMode step)
          then [SpotlightSetWelcomeMode True, SpotlightShow (Some True)]
          else [SpotlightSetWelcomeMode False, SpotlightShow None,
                SpotlightHighlightElement (target step)])
       else []) @
      (if speechBubble w then
         [BubbleSetStep (currentStep (state w) + 1) (int (length (tourSteps w))),
          BubbleShow (welcomeMode step), BubbleTypeMessage (message step) TYPING_SPEED]
       else []))"
  using getCurrentStep_inRange [OF assms]
  by (simp add: renderStep_def Let_def emit_def)

section \<open>The invariant of the tour\<close>

lemma tourInv_inRange: "tourInv w \<Longrightarrow> tourSteps w \<noteq> [] \<Longrightarrow> inRange w"
  by (auto simp: tourInv_def inRange_def)

lemma tourInv_fresh: "tourInv (freshPage store avail loc cg sb ts sm)"
  by (simp add: tourInv_def freshPage_def)

lemma getCurrentPage_cong:
  "pathname (location w') = pathname (location w) \<Longrightarrow> getCurrentPage w' = getCurrentPage w"
  by (simp add: getCurrentPage_def)

lemma tourInv_frame:
  assumes "tourInv w"
    and "state w' = state w" and "tourSteps w' = tourSteps w"
    and "pathname (location w') = pathname (location w)" and "speechBubble w' = speechBubble w"
  shows "tourInv w'"
  using assms(1) unfolding tourInv_def assms(2,3,5) getCurrentPage_cong [OF assms(4)] .

lemma frame_emit:
  "state (emit c w) = state w" "tourSteps (emit c w) = tourSteps w"
  "location (emit c w) = location w" "speechBubble (emit c w) = speechBubble w"
  "localStorage (emit c w) = localStorage w" "storageAvailable (emit c w) = storageAvailable w"
  "timers (emit c w) = timers w" "catGuide (emit c w) = catGuide w"
  "soundManager (emit c w) = soundManager w" "tourSpotlight (emit c w) = tourSpotlight w"
  "awaitingReveal (emit c w) = awaitingReveal w" "calls (emit c w) = calls w @ [c]"
  by (simp_all add: emit_def)

lemma frame_setTimeout:
  "state (setTimeout cb ms w) = state w" "tourSteps (setTimeout cb ms w) = tourSteps w"
  "location (setTimeout cb ms w) = location w" "speechBubble (setTimeout cb ms w) = speechBubble w"
  "localStorage (setTimeout cb ms w) = localStorage w"
  "storageAvailable (setTimeout cb ms w) = storageAvailable w"
  "timers (setTimeout cb ms w) = timers w @ [(ms, cb)]" "calls (setTimeout cb ms w) = calls w"
  by (simp_all add: setTimeout_def)

lemma frame_setItem:
  "state (setItem k v w) = state w" "tourSteps (setItem k v w) = tourSteps w"
  "location (setItem k v w) = location w" "speechBubble (setItem k v w) = speechBubble w"
  "storageAvailable (setItem k v w) = storageAvailable w"
  "timers (setItem k v w) = timers w" "catGuide (setItem k v w) = catGuide w"
  "soundManager (setItem k v w) = soundManager w" "tourSpotlight (setItem k v w) = tourSpotlight w"
  "awaitingReveal (setItem k v w) = awaitingReveal w" "calls (setItem k v w) = calls w"
  by (simp_all add: setItem_def)

lemma frame_removeItem:
  "state (removeItem k w) = state w" "tourSteps (removeItem k w) = tourSteps w"
  "location (removeItem k w) = location w" "speechBubble (removeItem k w) = speechBubble w"
  "storageAvailable (removeItem k w) = storageAvailable w"
  "timers (removeItem k w) = timers w" "catGuide (removeItem k w) = catGuide w"
  "soundManager (removeItem k w) = soundManager w" "tourSpotlight (removeItem k w) = tourSpotlight w"
  "awaitingReveal (removeItem k w) = awaitingReveal w" "calls (removeItem k w) = calls w"
  by (simp_all add: removeItem_def)

lemma frame_setTourActive:
  "state (setTourActive b w) = state w" "tourSteps (setTourActive b w) = tourSteps w"
  "location (setTourActive b w) = location w" "speechBubble (setTourActive b w) = speechBubble w"
  "storageAvailable (setTourActive b w) = storageAvailable w"
  "timers (setTourActive b w) = timers w" "catGuide (setTourActive b w) = catGuide w"
  "soundManager (setTourActive b w) = soundManager w"
  "tourSpotlight (setTourActive b w) = tourSpotlight w"
  "awaitingReveal (setTourActive b w) = awaitingReveal w" "calls (setTourActive b w) = calls w"
  by (simp_all add: setTourActive_def frame_setItem frame_removeItem)

lemma getItem_setItem:
  "getItem k' (setItem k v w) = (if storageAvailable w \<and> k' = k then Some v else getItem k' w)"
  by (simp add: getItem_def setItem_def)

lemma getItem_removeItem:
  "getItem k' (removeItem k w) = (if k' = k then None else getItem k' w)"
  by (simp add: getItem_def removeItem_def)

lemma getItem_emit: "getItem k (emit c w) = getItem k w"
  by (simp add: getItem_def emit_def)

lemma getItem_state_update: "getItem k (w\<lparr>state := s\<rparr>) = getItem k w"
  by (simp add: getItem_def)

lemma tourInv_emit: "tourInv w \<Longrightarrow> tourInv (emit c w)"
  by (rule tourInv_frame) (simp_all add: frame_emit)

lemma tourInv_setTimeout: "tourInv w \<Longrightarrow> tourInv (setTimeout cb ms w)"
  by (rule tourInv_frame) (simp_all add: frame_setTimeout)

lemma tourInv_setTourActive: "tourInv w \<Longrightarrow> tourInv (setTourActive b w)"
  by (rule tourInv_frame) (simp_all add: frame_setTourActive)

lemma tourInv_initTour: "tourInv w \<Longrightarrow> tourInv (initTour w)"
proof -
  assume inv: "tourInv w"
  let ?l = "loadTourForCurrentPage w"
  have ne: "getTourStepsForPage (getCurrentPage w) \<noteq> []" by (rule getTourStepsForPage_nonempty)
  have p: "getCurrentPage ?l = getCurrentPage w"
    by (rule getCurrentPage_cong) (simp add: loadTourForCurrentPage_def)
  have t: "tourSteps ?l = getTourStepsForPage (getCurrentPage w)"
    by (simp add: loadTourForCurrentPage_def)
  have s: "state ?l = state w" "speechBubble ?l = speechBubble w"
    by (simp_all add: loadTourForCurrentPage_def)
  have c: "currentStep (state w) < int (length (getTourStepsForPage (getCurrentPage w)))"
  proof (cases "tourSteps w = []")
    case True
    with inv have "currentStep (state w) = 0" by (simp add: tourInv_def)
    with ne show ?thesis by simp
  next
    case False
    with inv have "tourSteps w = getTourStepsForPage (getCurrentPage w)"
      and "currentStep (state w) < int (length (tourSteps w))"
      by (auto simp: tourInv_def)
    then show ?thesis by simp
  qed
  have "tourInv ?l"
    unfolding tourInv_def p t s using inv ne c by (auto simp: tourInv_def)
  then show ?thesis unfolding initTour_def by (rule tourInv_setTimeout)
qed

lemma tourInv_renderStep:
  assumes "tourInv w" and "tourSteps w \<noteq> []"
  shows "tourInv (after (renderStep w))"
proof -
  have r: "inRange w" using assms by (rule tourInv_inRange)
  have p: "getCurrentPage (after (renderStep w)) = getCurrentPage w"
    by (rule getCurrentPage_cong) (simp add: renderStep_inRange [OF r])
  show ?thesis
    unfolding tourInv_def p renderStep_inRange [OF r]
    using assms by (auto simp: tourInv_def)
qed

lemmas frames = frame_emit frame_setTimeout frame_setItem frame_removeItem frame_setTourActive

lemma completeTour_fields:
  "state (completeTour w) = (state w)\<lparr>isActive := False, hasCompleted := True\<rparr>"
  "tourSteps (completeTour w) = tourSteps w"
  "location (completeTour w) = location w"
  "speechBubble (completeTour w) = speechBubble w"
  "storageAvailable (completeTour w) = storageAvailable w"
  "timers (completeTour w) = timers w"
  "awaitingReveal (completeTour w) = awaitingReveal w"
  by (simp_all add: completeTour_def Let_def markTourCompleted_def clearSavedTourStep_def frames)

lemma tourInv_completeTour: "tourInv w \<Longrightarrow> tourInv (completeTour w)"
proof -
  assume inv: "tourInv w"
  have p: "getCurrentPage (completeTour w) = getCurrentPage w"
    by (rule getCurrentPage_cong) (simp add: completeTour_fields)
  show ?thesis
    unfolding tourInv_def p completeTour_fields using inv by (auto simp: tourInv_def)
qed

lemma tourInv_skipTour: "tourInv w \<Longrightarrow> tourInv (skipTour w)"
  by (simp add: skipTour_def tourInv_completeTour tourInv_setTourActive)

lemma tourInv_typeMessageResolved: "tourInv w \<Longrightarrow> tourInv (typeMessageResolved w)"
proof (cases "awaitingReveal w = 0")
  case True
  assume "tourInv w"
  with True show ?thesis by (simp add: typeMessageResolved_def)
next
  case False
  assume inv: "tourInv w"
  let ?w = "w\<lparr>state := (state w)\<lparr>isTyping := False\<rparr>, awaitingReveal := awaitingReveal w - 1\<rparr>"
  have p: "getCurrentPage ?w = getCurrentPage w" by (rule getCurrentPage_cong) simp
  have "tourInv ?w" unfolding tourInv_def p using inv by (auto simp: tourInv_def)
  with False show ?thesis by (simp add: typeMessageResolved_def)
qed

lemma getCurrentPage_emit: "getCurrentPage (emit c w) = getCurrentPage w"
  by (rule getCurrentPage_cong) (simp add: frame_emit)

lemma startTour_startPrefix: "startTour w = renderStep (startPrefix w)"
  by (simp add: startTour_def startPrefix_def Let_def)

lemma startPrefix_fields:
  "state (startPrefix w) = (state w)\<lparr>currentStep := 0, isActive := True, hasCompleted := False\<rparr>"
  "tourSteps (startPrefix w) = getTourStepsForPage (getCurrentPage w)"
  "location (startPrefix w) = location w"
  "speechBubble (startPrefix w) = speechBubble w"
  "storageAvailable (startPrefix w) = storageAvailable w"
  "timers (startPrefix w) = timers w"
  "awaitingReveal (startPrefix w) = awaitingReveal w"
  by (simp_all add: startPrefix_def Let_def loadTourForCurrentPage_def frames getCurrentPage_emit)

lemma inRange_startPrefix: "inRange (startPrefix w)"
  using getTourStepsForPage_length [of "getCurrentPage w"]
  by (auto simp: inRange_def startPrefix_fields)

lemma tourInv_startTour: "tourInv w \<Longrightarrow> tourInv (after (startTour w))"
proof -
  assume inv: "tourInv w"
  have p: "getCurrentPage (startPrefix w) = getCurrentPage w"
    by (rule getCurrentPage_cong) (simp add: startPrefix_fields)
  have ne: "tourSteps (startPrefix w) \<noteq> []"
    by (simp add: startPrefix_fields getTourStepsForPage_nonempty)
  have "tourInv (startPrefix w)"
    unfolding tourInv_def p startPrefix_fields
    using inv inRange_startPrefix [of w] ne
    by (auto simp: tourInv_def inRange_def startPrefix_fields)
  then show ?thesis unfolding startTour_startPrefix using ne by (rule tourInv_renderStep)
qed

lemma nextPrefix_fields:
  "state (nextPrefix w) = (state w)\<lparr>currentStep := currentStep (state w) + 1\<rparr>"
  "tourSteps (nextPrefix w) = tourSteps w"
  "location (nextPrefix w) = location w"
  "speechBubble (nextPrefix w) = speechBubble w"
  "storageAvailable (nextPrefix w) = storageAvailable w"
  "localStorage (nextPrefix w) = localStorage w"
  "timers (nextPrefix w) = timers w"
  "awaitingReveal (nextPrefix w) = awaitingReveal w"
  by (simp_all add: nextPrefix_def Let_def frames)

lemma nextStep_idle: "\<not> isActive (state w) \<Longrightarrow> nextStep w = Returns w"
  by (simp add: nextStep_def)

lemma nextStep_typing:
  assumes "isActive (state w)" and "isTyping (state w)" and "speechBubble w" and "inRange w"
  shows "nextStep w =
     Returns (w\<lparr>calls := calls w @ [BubbleSkipTyping (message (tourSteps w ! nat (currentStep (state w))))],
                state := (state w)\<lparr>isTyping := False\<rparr>\<rparr>)"
  using assms(1-3) getCurrentStep_inRange [OF assms(4)]
  by (simp add: nextStep_def emit_def Let_def)

lemma nextStep_advance:
  assumes "isActive (state w)" and "\<not> (isTyping (state w) \<and> speechBubble w)"
    and "currentStep (state w) < int (length (tourSteps w)) - 1"
  shows "nextStep w = renderStep (nextPrefix w)"
  using assms
  by (cases "isTyping (state w)"; cases "speechBubble w")
    (simp_all add: nextStep_def nextPrefix_def Let_def)

lemma nextStep_last:
  assumes "isActive (state w)" and "\<not> (isTyping (state w) \<and> speechBubble w)"
    and "\<not> currentStep (state w) < int (length (tourSteps w)) - 1" and "inRange w"
  shows "nextStep w =
     (case navigateTo (tourSteps w ! nat (currentStep (state w))) of
        None \<Rightarrow> Returns (completeTour w)
      | Some url \<Rightarrow>
          if url \<noteq> [] then Returns (emit (LocationAssign url) (setTourActive True w))
          else Returns (completeTour w))"
  using assms(1-3) getCurrentStep_inRange [OF assms(4)]
  by (cases "isTyping (state w)"; cases "speechBubble w") (simp_all add: nextStep_def)

lemma nextStep_out_of_range:
  assumes "isActive (state w)" and "tourSteps w = []" and "currentStep (state w) = 0"
    and "\<not> isTyping (state w)"
  shows "nextStep w = Throws w"
  using assms by (simp add: nextStep_def getCurrentStep_def)

lemma tourInv_nextStep: "tourInv w \<Longrightarrow> tourInv (after (nextStep w))"
proof -
  assume inv: "tourInv w"
  consider (idle) "\<not> isActive (state w)"
    | (skip) "isActive (state w)" "isTyping (state w) \<and> speechBubble w"
    | (step) "isActive (state w)" "\<not> (isTyping (state w) \<and> speechBubble w)"
        "currentStep (state w) < int (length (tourSteps w)) - 1"
    | (last) "isActive (state w)" "\<not> (isTyping (state w) \<and> speechBubble w)"
        "\<not> currentStep (state w) < int (length (tourSteps w)) - 1"
    by blast
  then show ?thesis
  proof cases
    case idle
    then show ?thesis using inv by (simp add: nextStep_idle)
  next
    case skip
    with inv have ne: "tourSteps w \<noteq> []" by (simp add: tourInv_def)
    with inv have r: "inRange w" by (rule tourInv_inRange)
    let ?w = "w\<lparr>calls := calls w @ [BubbleSkipTyping (message (tourSteps w ! nat (currentStep (state w))))],
                state := (state w)\<lparr>isTyping := False\<rparr>\<rparr>"
    have p: "getCurrentPage ?w = getCurrentPage w" by (rule getCurrentPage_cong) simp
    have "tourInv ?w" unfolding tourInv_def p using inv by (auto simp: tourInv_def)
    then show ?thesis using skip r by (simp add: nextStep_typing)
  next
    case step
    have n: "nextStep w = renderStep (nextPrefix w)" using step by (rule nextStep_advance)
    have ne: "tourSteps (nextPrefix w) \<noteq> []"
      using step inv by (auto simp: nextPrefix_fields tourInv_def)
    have p: "getCurrentPage (nextPrefix w) = getCurrentPage w"
      by (rule getCurrentPage_cong) (simp add: nextPrefix_fields)
    have "tourInv (nextPrefix w)"
      unfolding tourInv_def p nextPrefix_fields using inv step by (auto simp: tourInv_def)
    then show ?thesis unfolding n using ne by (rule tourInv_renderStep)
  next
    case last
    from last(1) inv have ne: "tourSteps w \<noteq> []" by (simp add: tourInv_def)
    with inv have r: "inRange w" by (rule tourInv_inRange)
    have "tourInv (emit (LocationAssign url) (setTourActive True w))" for url
      using inv by (simp add: tourInv_emit tourInv_setTourActive)
    then show ?thesis
      using inv by (simp add: nextStep_last [OF last r] tourInv_completeTour split: option.splits)
  qed
qed

lemma prevStep_noop:
  "\<not> isActive (state w) \<or> currentStep (state w) \<le> 0 \<Longrightarrow> prevStep w = Returns w"
  by (auto simp: prevStep_def)

lemma prevStep_back:
  "isActive (state w) \<Longrightarrow> currentStep (state w) > 0 \<Longrightarrow>
   prevStep w = renderStep (w\<lparr>state := (state w)\<lparr>currentStep := currentStep (state w) - 1\<rparr>\<rparr>)"
  by (simp add: prevStep_def)

lemma tourInv_prevStep: "tourInv w \<Longrightarrow> tourInv (after (prevStep w))"
proof -
  assume inv: "tourInv w"
  show ?thesis
  proof (cases "isActive (state w) \<and> currentStep (state w) > 0")
    case False
    then have "prevStep w = Returns w" by (intro prevStep_noop) auto
    then show ?thesis using inv by simp
  next
    case True
    let ?w1 = "w\<lparr>state := (state w)\<lparr>currentStep := currentStep (state w) - 1\<rparr>\<rparr>"
    have p: "prevStep w = renderStep ?w1" using True by (simp add: prevStep_back)
    have ne: "tourSteps ?w1 \<noteq> []" using True inv by (auto simp: tourInv_def)
    have g: "getCurrentPage ?w1 = getCurrentPage w" by (rule getCurrentPage_cong) simp
    have "tourInv ?w1" unfolding tourInv_def g using inv True by (auto simp: tourInv_def)
    then show ?thesis unfolding p using ne by (rule tourInv_renderStep)
  qed
qed

lemma clearTourParam_throws:
  "schemeRelative (pathname (location w)) \<Longrightarrow> clearTourParam w = Throws w"
  by (simp add: clearTourParam_def replaceState_def Let_def)

lemma clearTourParam_returns:
  "\<not> schemeRelative (pathname (location w)) \<Longrightarrow>
   clearTourParam w =
     Returns (emit (HistoryReplaceState (pathname (location w)))
                (w\<lparr>location := \<lparr>pathname = pathname (location w), search = [], hash = []\<rparr>\<rparr>))"
  by (simp add: clearTourParam_def replaceState_def Let_def)

lemma clearTourParam_frame:
  "state (after (clearTourParam w)) = state w"
  "tourSteps (after (clearTourParam w)) = tourSteps w"
  "pathname (location (after (clearTourParam w))) = pathname (location w)"
  "speechBubble (after (clearTourParam w)) = speechBubble w"
  "storageAvailable (after (clearTourParam w)) = storageAvailable w"
  "localStorage (after (clearTourParam w)) = localStorage w"
  "timers (after (clearTourParam w)) = timers w"
  "catGuide (after (clearTourParam w)) = catGuide w"
  by (cases "schemeRelative (pathname (location w))";
      simp add: clearTourParam_throws clearTourParam_returns frames)+

lemma clearTourParam_fields:
  assumes "\<not> schemeRelative (pathname (location w))"
  shows "returned (clearTourParam w)"
    and "location (after (clearTourParam w))
           = \<lparr>pathname = pathname (location w), search = [], hash = []\<rparr>"
    and "calls (after (clearTourParam w)) = calls w @ [HistoryReplaceState (pathname (location w))]"
  by (simp_all add: clearTourParam_returns [OF assms] frames)

lemma tourInv_clearTourParam: "tourInv w \<Longrightarrow> tourInv (after (clearTourParam w))"
  by (rule tourInv_frame) (simp_all add: clearTourParam_frame)

lemma initSettled_cases:
  "initSettled w =
     (let w1 = emit AddClickListener (emit AddKeydownListener w)
      in if isTourActive w then Returns (setTimeout ContinueTour 500 w1)
         else if shouldStartFromUrl w then
           (if schemeRelative (pathname (location w)) then Throws w1
            else Returns (setTimeout BeginTour 500 (after (clearTourParam w1))))
         else if isHomePage w \<and> \<not> hasCompletedTour w
           then Returns (setTimeout BeginTour 1000 w1)
         else if catGuide w then Returns (emit CatShow w1)
         else Returns w1)"
proof -
  let ?w1 = "emit AddClickListener (emit AddKeydownListener w)"
  have c: "(case clearTourParam ?w1 of Throws w2 \<Rightarrow> Throws w2
             | Returns w2 \<Rightarrow> Returns (setTimeout BeginTour 500 w2))
           = (if schemeRelative (pathname (location w)) then Throws ?w1
              else Returns (setTimeout BeginTour 500 (after (clearTourParam ?w1))))"
    by (cases "schemeRelative (pathname (location w))")
      (simp_all add: clearTourParam_throws clearTourParam_returns frames)
  show ?thesis
    unfolding initSettled_def Let_def c
    by (simp add: isTourActive_def hasCompletedTour_def getItem_emit shouldStartFromUrl_def
        isHomePage_def frames)
qed

lemma tourInv_initSettled: "tourInv w \<Longrightarrow> tourInv (after (initSettled w))"
  unfolding initSettled_cases Let_def
  by (simp add: tourInv_emit tourInv_setTimeout tourInv_clearTourParam)

lemma tourInv_continueTour: "tourInv w \<Longrightarrow> tourInv (after (continueTour w))"
  unfolding continueTour_def
  by (rule tourInv_startTour) (simp add: tourInv_emit)

lemma tourInv_fireTimer: "tourInv w \<Longrightarrow> tourInv (after (fireTimer i w))"
proof (cases "i < length (timers w)")
  case False
  assume "tourInv w"
  with False show ?thesis by (simp add: fireTimer_def)
next
  case True
  assume inv: "tourInv w"
  let ?w = "w\<lparr>timers := take i (timers w) @ drop (Suc i) (timers w)\<rparr>"
  have "tourInv ?w" using inv by (rule tourInv_frame) simp_all
  then have "tourInv (after (runCallback cb ?w))" for cb
    by (cases cb) (simp_all add: tourInv_initSettled tourInv_continueTour tourInv_startTour)
  then show ?thesis using True by (simp add: fireTimer_def)
qed

lemma tourInv_onKeydown: "tourInv w \<Longrightarrow> tourInv (after (onKeydown key w))"
  by (simp add: onKeydown_def tourInv_nextStep tourInv_prevStep tourInv_skipTour)

lemma tourInv_onClick: "tourInv w \<Longrightarrow> tourInv (after (onClick closest w))"
  by (simp add: onClick_def restartTour_def tourInv_nextStep tourInv_prevStep tourInv_skipTour
      tourInv_startTour tourInv_emit)

lemma tourInv_initSoundsOnInteraction: "tourInv w \<Longrightarrow> tourInv (initSoundsOnInteraction w)"
proof -
  assume inv: "tourInv w"
  have "tourInv (w\<lparr>soundsInitialized := True\<rparr>)" using inv by (rule tourInv_frame) simp_all
  then show ?thesis using inv by (simp add: initSoundsOnInteraction_def Let_def tourInv_emit)
qed

lemma reachable_tourInv: "reachable w \<Longrightarrow> tourInv w"
  by (induction rule: reachable.induct)
    (simp_all add: tourInv_fresh tourInv_initTour tourInv_fireTimer tourInv_startTour
      tourInv_nextStep tourInv_prevStep tourInv_skipTour tourInv_typeMessageResolved
      tourInv_onKeydown tourInv_onClick tourInv_initSoundsOnInteraction)

section \<open>The ambient purr timer\<close>

lemmas sound_defs = init_def playTypingSound_def playMeow_def playPurr_def playSuccess_def
  schedulePurr_def truthy_handle_def startAmbientPurr_def playRandomPurr_def clearTimeout_def
  stopAmbientPurr_def setEnabled_def setVolume_def timerFires_def

lemma oneAmbientTimer_initial: "0 < h \<Longrightarrow> oneAmbientTimer (soundManager0 supported h)"
  by (simp add: oneAmbientTimer_def soundManager0_def)

lemma oneAmbientTimer_init: "oneAmbientTimer a \<Longrightarrow> oneAmbientTimer (init a)"
  by (auto simp: oneAmbientTimer_def init_def split: option.splits)

lemma oneAmbientTimer_play:
  "oneAmbientTimer a \<Longrightarrow> oneAmbientTimer (playTypingSound a)"
  "oneAmbientTimer a \<Longrightarrow> oneAmbientTimer (playMeow a)"
  "oneAmbientTimer a \<Longrightarrow> oneAmbientTimer (playPurr a)"
  "oneAmbientTimer a \<Longrightarrow> oneAmbientTimer (playSuccess a)"
  by (auto simp: oneAmbientTimer_def playTypingSound_def playMeow_def playPurr_def
      playSuccess_def split: option.splits)

lemma oneAmbientTimer_start: "oneAmbientTimer a \<Longrightarrow> oneAmbientTimer (startAmbientPurr a)"
  by (auto simp: oneAmbientTimer_def startAmbientPurr_def schedulePurr_def truthy_handle_def
      split: option.splits)

lemma oneAmbientTimer_stop: "oneAmbientTimer a \<Longrightarrow> oneAmbientTimer (stopAmbientPurr a)"
  by (auto simp: oneAmbientTimer_def stopAmbientPurr_def clearTimeout_def split: option.splits)

lemma stop_cancels:
  assumes "oneAmbientTimer a"
  shows "purrInterval (stopAmbientPurr a) = None" and "pending (stopAmbientPurr a) = []"
proof -
  show "purrInterval (stopAmbientPurr a) = None"
    using assms by (auto simp: oneAmbientTimer_def stopAmbientPurr_def split: option.splits)
  show "pending (stopAmbientPurr a) = []"
  proof (cases "purrInterval a")
    case None
    with assms show ?thesis by (simp add: oneAmbientTimer_def stopAmbientPurr_def)
  next
    case (Some h)
    with assms have h: "0 < h" and p: "map fst (pending a) = [h]"
      by (simp_all add: oneAmbientTimer_def)
    from p obtain d where "pending a = [(h, d)]" by (cases "pending a") auto
    with Some h show ?thesis by (simp add: stopAmbientPurr_def clearTimeout_def)
  qed
qed

lemma oneAmbientTimer_setEnabled: "oneAmbientTimer a \<Longrightarrow> oneAmbientTimer (setEnabled en a)"
proof -
  assume a: "oneAmbientTimer a"
  have "oneAmbientTimer (a\<lparr>isEnabled := en\<rparr>)"
    using a by (auto simp: oneAmbientTimer_def split: option.splits)
  then show ?thesis
    by (cases en) (simp_all add: setEnabled_def Let_def oneAmbientTimer_stop)
qed

lemma oneAmbientTimer_setVolume: "oneAmbientTimer a \<Longrightarrow> oneAmbientTimer (setVolume v a)"
  by (auto simp: oneAmbientTimer_def setVolume_def split: option.splits)

lemma oneAmbientTimer_fires: "oneAmbientTimer a \<Longrightarrow> oneAmbientTimer (timerFires h r a)"
proof (cases "purrInterval a")
  case None
  assume "oneAmbientTimer a"
  with None show ?thesis by (simp add: oneAmbientTimer_def timerFires_def)
next
  case (Some k)
  assume a: "oneAmbientTimer a"
  with Some have k: "0 < k" "k < nextHandle a" and p: "map fst (pending a) = [k]"
    by (simp_all add: oneAmbientTimer_def)
  from p obtain d where d: "pending a = [(k, d)]" by (cases "pending a") auto
  show ?thesis
    using a Some k d
    by (simp add: oneAmbientTimer_def timerFires_def playRandomPurr_def playPurr_def
        schedulePurr_def Let_def)
qed

lemma reachableSound_oneAmbientTimer: "reachableSound a \<Longrightarrow> oneAmbientTimer a"
proof (induction rule: reachableSound.induct)
  case (rs_initial h supported)
  then show ?case by (rule oneAmbientTimer_initial)
qed (simp_all add: oneAmbientTimer_init oneAmbientTimer_play oneAmbientTimer_start
    oneAmbientTimer_stop oneAmbientTimer_setEnabled oneAmbientTimer_setVolume
    oneAmbientTimer_fires)

lemma disabled_timerFires:
  assumes "\<not> isEnabled a"
  shows "played (timerFires h r a) = played a" and "\<not> isEnabled (timerFires h r a)"
  using assms by (simp_all add: timerFires_def playRandomPurr_def schedulePurr_def Let_def)

lemma disabled_timersFire:
  "\<not> isEnabled a \<Longrightarrow> played (timersFire es a) = played a \<and> \<not> isEnabled (timersFire es a)"
proof (induction es arbitrary: a)
  case Nil
  then show ?case by simp
next
  case (Cons e es)
  have "\<not> isEnabled (timerFires (fst e) (snd e) a)"
    using Cons.prems by (rule disabled_timerFires)
  from Cons.IH [OF this] show ?case
    using Cons.prems by (simp add: disabled_timerFires)
qed

lemma setEnabled_False_fields:
  "isEnabled (setEnabled False a) = False"
  "played (setEnabled False a) = played a"
  "nextHandle (setEnabled False a) = nextHandle a"
  by (simp_all add: setEnabled_def stopAmbientPurr_def clearTimeout_def Let_def
      split: option.splits)

lemma setEnabled_False_cancels:
  assumes "oneAmbientTimer a"
  shows "purrInterval (setEnabled False a) = None" and "pending (setEnabled False a) = []"
proof -
  have "oneAmbientTimer (a\<lparr>isEnabled := False\<rparr>)"
    using assms by (auto simp: oneAmbientTimer_def split: option.splits)
  then show "purrInterval (setEnabled False a) = None" and "pending (setEnabled False a) = []"
    by (simp_all add: setEnabled_def Let_def stop_cancels)
qed

lemma startAmbientPurr_fields:
  "played (startAmbientPurr a) = played a" "isEnabled (startAmbientPurr a) = isEnabled a"
  by (simp_all add: startAmbientPurr_def schedulePurr_def)

lemma startAmbientPurr_while_disabled_sets_timer:
  assumes "reachableSound a"
  shows "purrInterval (startAmbientPurr (setEnabled False a)) = Some (nextHandle a)"
    and "pending (startAmbientPurr (setEnabled False a)) = [(nextHandle a, 2000)]"
  using setEnabled_False_cancels [OF reachableSound_oneAmbientTimer [OF assms]]
  by (simp_all add: startAmbientPurr_def truthy_handle_def schedulePurr_def
      setEnabled_False_fields)

lemma demoSound_reachable: "reachableSound demoSound"
  unfolding demoSound_def
  by (intro rs_playPurr rs_startAmbientPurr rs_init rs_initial) simp

section \<open>Completing, starting and advancing\<close>

lemma newCalls_append: "calls w' = calls w @ cs \<Longrightarrow> newCalls w w' = cs"
  by (simp add: newCalls_def)

lemma completeTour_calls:
  "calls (completeTour w) = calls w @
     (if soundManager w then [SoundPlaySuccess] else []) @
     (if tourSpotlight w then [SpotlightHide] else []) @
     (if speechBubble w then [BubbleHide] else []) @
     (if catGuide w then [CatSetAnimation Idle] else [])"
  by (simp add: completeTour_def Let_def markTourCompleted_def clearSavedTourStep_def frames)

lemma completeTour_storage:
  "getItem STORAGE_KEY (completeTour w) = (if storageAvailable w then Some ''true'' else None)"
  "getItem TOUR_STEP_KEY (completeTour w) = None"
  "getItem TOUR_ACTIVE_KEY (completeTour w) = None"
  by (simp_all add: completeTour_def Let_def markTourCompleted_def clearSavedTourStep_def
      setTourActive_def getItem_emit getItem_removeItem getItem_setItem getItem_state_update
      frames key_defs)
    (simp_all add: getItem_def)

lemma skipTour_storage: "getItem TOUR_ACTIVE_KEY (skipTour w) = None"
  by (simp add: skipTour_def completeTour_storage)

lemma last_step_index:
  assumes "tourSteps w \<noteq> []" and "currentStep (state w) = int (length (tourSteps w)) - 1"
  shows "inRange w" and "tourSteps w ! nat (currentStep (state w)) = last (tourSteps w)"
proof -
  from assms show "inRange w" by (cases "tourSteps w") (simp_all add: inRange_def)
  from assms(2) have "nat (currentStep (state w)) = length (tourSteps w) - 1" by simp
  with assms(1) show "tourSteps w ! nat (currentStep (state w)) = last (tourSteps w)"
    by (simp add: last_conv_nth)
qed

lemma startTour_fields:
  "returned (startTour w)"
  "currentStep (state (after (startTour w))) = 0"
  "isActive (state (after (startTour w)))"
  "tourSteps (after (startTour w)) = getTourStepsForPage (getCurrentPage w)"
  "speechBubble (after (startTour w)) = speechBubble w"
  "isTyping (state (after (startTour w))) = (speechBubble w \<or> isTyping (state w))"
  "awaitingReveal (after (startTour w))
     = (if speechBubble w then Suc (awaitingReveal w) else awaitingReveal w)"
  by (simp_all add: startTour_startPrefix renderStep_inRange [OF inRange_startPrefix]
      startPrefix_fields)

lemma inRange_startTour: "inRange (after (startTour w))"
  using getTourStepsForPage_length [of "getCurrentPage w"]
  by (auto simp: inRange_def startTour_fields)

text \<open>An advance with no reveal in progress and at least one more step to go.\<close>

lemma advance_fields:
  assumes "isActive (state w)" and "\<not> (isTyping (state w) \<and> speechBubble w)"
    and "0 \<le> currentStep (state w)"
    and "currentStep (state w) < int (length (tourSteps w)) - 1"
  shows "returned (nextStep w)"
    and "currentStep (state (after (nextStep w))) = currentStep (state w) + 1"
    and "isActive (state (after (nextStep w)))"
    and "tourSteps (after (nextStep w)) = tourSteps w"
    and "speechBubble (after (nextStep w)) = speechBubble w"
    and "isTyping (state (after (nextStep w))) = (speechBubble w \<or> isTyping (state w))"
    and "awaitingReveal (after (nextStep w))
           = (if speechBubble w then Suc (awaitingReveal w) else awaitingReveal w)"
proof -
  have r: "inRange (nextPrefix w)" using assms(3,4) by (simp add: inRange_def nextPrefix_fields)
  note n = nextStep_advance [OF assms(1,2,4)]
  show "returned (nextStep w)"
    and "currentStep (state (after (nextStep w))) = currentStep (state w) + 1"
    and "isActive (state (after (nextStep w)))"
    and "tourSteps (after (nextStep w)) = tourSteps w"
    and "speechBubble (after (nextStep w)) = speechBubble w"
    and "isTyping (state (after (nextStep w))) = (speechBubble w \<or> isTyping (state w))"
    and "awaitingReveal (after (nextStep w))
           = (if speechBubble w then Suc (awaitingReveal w) else awaitingReveal w)"
    using assms(1) by (simp_all add: n renderStep_inRange [OF r] nextPrefix_fields)
qed

lemma typeMessageResolved_fields:
  "currentStep (state (typeMessageResolved w)) = currentStep (state w)"
  "isActive (state (typeMessageResolved w)) = isActive (state w)"
  "tourSteps (typeMessageResolved w) = tourSteps w"
  "speechBubble (typeMessageResolved w) = speechBubble w"
  "isTyping (state (typeMessageResolved w)) = (isTyping (state w) \<and> awaitingReveal w = 0)"
  by (simp_all add: typeMessageResolved_def)

text \<open>After a start or an advance, the end of the reveal leaves no reveal in progress
  that \<open>nextStep\<close> would skip.\<close>

lemma resolved_after_render:
  assumes "isTyping (state v) = (speechBubble w \<or> t)"
    and "awaitingReveal v = (if speechBubble w then Suc n else n)"
    and "speechBubble v = speechBubble w"
  shows "\<not> (isTyping (state (typeMessageResolved v)) \<and> speechBubble (typeMessageResolved v))"
  using assms by (simp add: typeMessageResolved_fields)

lemma registered_navigateTo_nonempty: "navigateTo (last (getTourStepsForPage pg)) \<noteq> Some []"
proof (cases "pageTours pg")
  case None
  then show ?thesis by (simp add: getTourStepsForPage_def last_navigateTo)
next
  case (Some steps)
  from registered_script [OF Some] show ?thesis
    using Some by (auto simp: getTourStepsForPage_def last_navigateTo)
qed

lemma reachable_navigateTo_nonempty:
  assumes "reachable w" and "tourSteps w \<noteq> []"
  shows "navigateTo (last (tourSteps w)) \<noteq> Some []"
proof -
  from assms have "tourSteps w = getTourStepsForPage (getCurrentPage w)"
    using reachable_tourInv [OF assms(1)] by (auto simp: tourInv_def)
  then show ?thesis using registered_navigateTo_nonempty [of "getCurrentPage w"] by simp
qed

section \<open>What a page load does with the stored flags\<close>

lemma nextPageLoad_fields:
  "timers (nextPageLoad w loc cg sb ts sm) = [(100, InitSettled)]"
  "calls (nextPageLoad w loc cg sb ts sm) = []"
  "location (nextPageLoad w loc cg sb ts sm) = loc"
  "localStorage (nextPageLoad w loc cg sb ts sm) = localStorage w"
  "storageAvailable (nextPageLoad w loc cg sb ts sm) = storageAvailable w"
  "catGuide (nextPageLoad w loc cg sb ts sm) = cg"
  by (simp_all add: nextPageLoad_def initTour_def setTimeout_def loadTourForCurrentPage_def
      freshPage_def)

lemma getItem_nextPageLoad: "getItem k (nextPageLoad w loc cg sb ts sm) = getItem k w"
  by (simp add: getItem_def nextPageLoad_fields)

lemma fire_settle:
  "fireTimer 0 (nextPageLoad w loc cg sb ts sm)
     = initSettled ((nextPageLoad w loc cg sb ts sm)\<lparr>timers := []\<rparr>)"
  by (simp add: fireTimer_def nextPageLoad_fields)

lemma initSettled_timers:
  "timers (after (initSettled w)) = timers w @
     (if isTourActive w then [(500, ContinueTour)]
      else if shouldStartFromUrl w then
        (if schemeRelative (pathname (location w)) then [] else [(500, BeginTour)])
      else if isHomePage w \<and> \<not> hasCompletedTour w then [(1000, BeginTour)]
      else [])"
  by (simp add: initSettled_cases Let_def frames clearTourParam_frame)

lemma settle_after_load:
  "timers (after (fireTimer 0 (nextPageLoad w loc cg sb ts sm))) =
     (if getItem TOUR_ACTIVE_KEY w = Some ''true'' then [(500, ContinueTour)]
      else if TOUR_PARAM \<in> set (map fst (search loc)) then
        (if schemeRelative (pathname loc) then [] else [(500, BeginTour)])
      else if (pathname loc = HOME_PATH \<or> pathname loc = ''/index.html'')
              \<and> getItem STORAGE_KEY w \<noteq> Some ''true'' then [(1000, BeginTour)]
      else [])"
proof -
  let ?p = "(nextPageLoad w loc cg sb ts sm)\<lparr>timers := []\<rparr>"
  have g: "getItem k ?p = getItem k w" for k by (simp add: getItem_def nextPageLoad_fields)
  have "isTourActive ?p = (getItem TOUR_ACTIVE_KEY w = Some ''true'')"
    and "hasCompletedTour ?p = (getItem STORAGE_KEY w = Some ''true'')"
    and "shouldStartFromUrl ?p = (TOUR_PARAM \<in> set (map fst (search loc)))"
    and "isHomePage ?p = (pathname loc = HOME_PATH \<or> pathname loc = ''/index.html'')"
    by (simp_all add: isTourActive_def hasCompletedTour_def g shouldStartFromUrl_def
        isHomePage_def nextPageLoad_fields)
  then show ?thesis by (simp add: fire_settle initSettled_timers nextPageLoad_fields)
qed

lemma active_flag_resumes:
  "isTourActive w \<Longrightarrow>
   timers (after (fireTimer 0 (nextPageLoad w loc cg sb ts sm))) = [(500, ContinueTour)]"
  by (simp add: settle_after_load isTourActive_def)

lemma initSettled_strips_marker:
  assumes "shouldStartFromUrl w" and "\<not> isTourActive w"
    and "\<not> schemeRelative (pathname (location w))"
  shows "initSettled w =
     Returns (setTimeout BeginTour 500
       (after (clearTourParam (emit AddClickListener (emit AddKeydownListener w)))))"
  using assms by (simp add: initSettled_cases Let_def)

lemma initSettled_throws:
  assumes "shouldStartFromUrl w" and "\<not> isTourActive w"
    and "schemeRelative (pathname (location w))"
  shows "initSettled w = Throws (emit AddClickListener (emit AddKeydownListener w))"
  using assms by (simp add: initSettled_cases Let_def)

text \<open>On a page whose path begins with a single slash the marker is stripped as intended:
  the location becomes the bare path, by \<^verbatim>\<open>history.replaceState\<close> alone, and the start of the
  tour is scheduled.\<close>

lemma stripping_on_ordinary_path:
  assumes "\<not> schemeRelative (pathname (location w))"
  shows "location (after (clearTourParam w))
           = \<lparr>pathname = pathname (location w), search = [], hash = []\<rparr>"
    and "newCalls w (after (clearTourParam w)) = [HistoryReplaceState (pathname (location w))]"
    and "state (after (clearTourParam w)) = state w"
    and "tourSteps (after (clearTourParam w)) = tourSteps w"
    and "shouldStartFromUrl w \<and> \<not> isTourActive w \<Longrightarrow>
         returned (initSettled w)
       \<and> location (after (initSettled w))
           = \<lparr>pathname = pathname (location w), search = [], hash = []\<rparr>
       \<and> newCalls w (after (initSettled w)) =
           [AddKeydownListener, AddClickListener, HistoryReplaceState (pathname (location w))]
       \<and> timers (after (initSettled w)) = timers w @ [(500, BeginTour)]"
proof -
  let ?w1 = "emit AddClickListener (emit AddKeydownListener w)"
  have n: "\<not> schemeRelative (pathname (location ?w1))" using assms by (simp add: frames)
  show "location (after (clearTourParam w))
           = \<lparr>pathname = pathname (location w), search = [], hash = []\<rparr>"
    and "newCalls w (after (clearTourParam w)) = [HistoryReplaceState (pathname (location w))]"
    and "state (after (clearTourParam w)) = state w"
    and "tourSteps (after (clearTourParam w)) = tourSteps w"
    by (simp_all add: clearTourParam_fields [OF assms] clearTourParam_frame newCalls_def)
  show "returned (initSettled w)
       \<and> location (after (initSettled w))
           = \<lparr>pathname = pathname (location w), search = [], hash = []\<rparr>
       \<and> newCalls w (after (initSettled w)) =
           [AddKeydownListener, AddClickListener, HistoryReplaceState (pathname (location w))]
       \<and> timers (after (initSettled w)) = timers w @ [(500, BeginTour)]"
    if "shouldStartFromUrl w \<and> \<not> isTourActive w"
  proof -
    from that have s: "shouldStartFromUrl w" and a: "\<not> isTourActive w" by simp_all
    show ?thesis
      unfolding initSettled_strips_marker [OF s a assms]
      by (simp add: frames clearTourParam_fields [OF n] clearTourParam_frame newCalls_def)
  qed
qed

section \<open>The self-contained variant\<close>

text \<open>At the last step this variant always completes; while a reveal is in progress it
  does what the cross-page variant does; its \<open>completeTour\<close> sets the same state and the
  same completion flag, but leaves \<^verbatim>\<open>portfolio_tour_active\<close> alone and calls no sound.\<close>

lemma nextStep_selfContained_last:
  assumes "isActive (state w)" and "\<not> isTyping (state w)"
    and "\<not> currentStep (state w) < int (length (tourSteps w)) - 1"
  shows "nextStep_selfContained w = Returns (completeTour_selfContained w)"
  using assms by (simp add: nextStep_selfContained_def)

lemma nextStep_selfContained_typing:
  assumes "isActive (state w)" and "isTyping (state w)" and "speechBubble w" and "inRange w"
  shows "nextStep_selfContained w = nextStep w"
  using assms(1-3) by (simp add: nextStep_selfContained_def nextStep_def)

lemma completeTour_selfContained_state:
  "state (completeTour_selfContained w) = (state w)\<lparr>isActive := False, hasCompleted := True\<rparr>"
  by (simp add: completeTour_selfContained_def Let_def markTourCompleted_def
      clearSavedTourStep_def frames)

lemma completeTour_selfContained_calls:
  "newCalls w (completeTour_selfContained w) =
        (if tourSpotlight w then [SpotlightHide] else []) @
        (if speechBubble w then [BubbleHide] else []) @
        (if catGuide w then [CatSetAnimation Idle] else [])"
  by (simp add: completeTour_selfContained_def Let_def markTourCompleted_def
      clearSavedTourStep_def frames newCalls_def)

lemma completeTour_selfContained_storage:
  "getItem STORAGE_KEY (completeTour_selfContained w)
     = (if storageAvailable w then Some ''true'' else None)"
  "getItem TOUR_STEP_KEY (completeTour_selfContained w) = None"
  "getItem TOUR_ACTIVE_KEY (completeTour_selfContained w) = getItem TOUR_ACTIVE_KEY w"
  by (simp_all add: completeTour_selfContained_def Let_def markTourCompleted_def
      clearSavedTourStep_def getItem_emit getItem_removeItem getItem_setItem
      getItem_state_update frames key_defs)
    (simp_all add: getItem_def)

section \<open>The concrete worlds\<close>

lemma demoLoaded_fields:
  "speechBubble demoLoaded" "state demoLoaded =
     \<lparr>currentStep = 0, isActive = False, isTyping = False, hasCompleted = False\<rparr>"
  "tourSteps demoLoaded = homeTour" "calls demoLoaded = []"
  by (simp_all add: demoLoaded_def initTour_def setTimeout_def loadTourForCurrentPage_def
      freshPage_def getCurrentPage_def getTourStepsForPage_def pageTours_home)

lemma demoLoaded_reachable: "reachable demoLoaded"
  unfolding demoLoaded_def by (intro r_initTour r_load)

lemma demoStarted_reachable: "reachable demoStarted"
  unfolding demoStarted_def using demoLoaded_reachable by (rule r_startTour)

lemma demoStarted_fields:
  "isActive (state demoStarted)" "isTyping (state demoStarted)"
  "currentStep (state demoStarted) = 0" "tourSteps demoStarted = homeTour"
  using demoLoaded_fields
  by (simp_all add: demoStarted_def startTour_fields demoLoaded_def initTour_def setTimeout_def
      loadTourForCurrentPage_def freshPage_def getCurrentPage_def getTourStepsForPage_def
      pageTours_home)

lemma demoMidTour_fields:
  "isActive (state demoMidTour)" "isTyping (state demoMidTour)"
  "currentStep (state demoMidTour) = 1" "tourSteps demoMidTour = aboutTour"
  "storageAvailable demoMidTour" "speechBubble demoMidTour" "catGuide demoMidTour"
  "tourSpotlight demoMidTour" "soundManager demoMidTour" "awaitingReveal demoMidTour = 1"
  "isTourActive demoMidTour" "getItem TOUR_STEP_KEY demoMidTour = Some ''1''"
  "inRange demoMidTour"
  by (simp_all add: demoMidTour_def isTourActive_def getItem_def key_defs inRange_def
      script_lengths)

lemma demoMarked_fields:
  "location demoMarked =
     \<lparr>pathname = ''/skills'', search = [(''start-tour'', []), (''ref'', ''mail'')],
       hash = ''#top''\<rparr>"
  "shouldStartFromUrl demoMarked" "\<not> isTourActive demoMarked"
  "timers demoMarked = [(100, InitSettled)]"
  by (simp_all add: demoMarked_def markedLoc_def initTour_def setTimeout_def
      loadTourForCurrentPage_def freshPage_def shouldStartFromUrl_def TOUR_PARAM_def
      isTourActive_def getItem_def)

lemma demoDoubleSlash_fields:
  "location demoDoubleSlash =
     \<lparr>pathname = ''//elsewhere.example/about'', search = [(''start-tour'', [])],
       hash = ''#top''\<rparr>"
  "shouldStartFromUrl demoDoubleSlash" "\<not> isTourActive demoDoubleSlash"
  "schemeRelative (pathname (location demoDoubleSlash))"
  "timers demoDoubleSlash = [(100, InitSettled)]" "calls demoDoubleSlash = []"
  "storageAvailable demoDoubleSlash" "localStorage demoDoubleSlash = Map.empty"
  by (simp_all add: demoDoubleSlash_def doubleSlashLoc_def initTour_def setTimeout_def
      loadTourForCurrentPage_def freshPage_def shouldStartFromUrl_def TOUR_PARAM_def
      isTourActive_def getItem_def schemeRelative_def)

text \<open>The skills page loaded with the start marker, a second parameter and a fragment: the
  timer of \<^verbatim>\<open>initTour\<close> leaves the bare path and schedules the start of the tour.\<close>

lemma stripping_on_demoMarked:
  "location (after (initSettled demoMarked)) = \<lparr>pathname = ''/skills'', search = [], hash = []\<rparr>"
  "timers (after (initSettled demoMarked)) = [(100, InitSettled), (500, BeginTour)]"
proof -
  have n: "\<not> schemeRelative (pathname (location demoMarked))"
    by (simp add: demoMarked_fields schemeRelative_def)
  from stripping_on_ordinary_path(5) [OF n] demoMarked_fields
  show "location (after (initSettled demoMarked)) = \<lparr>pathname = ''/skills'', search = [], hash = []\<rparr>"
    and "timers (after (initSettled demoMarked)) = [(100, InitSettled), (500, BeginTour)]"
    by simp_all
qed

lemma quietSound_reachable: "reachableSound quietSound"
  unfolding quietSound_def by (intro rs_setEnabled rs_init rs_initial) simp

lemma quietSound_fields:
  "\<not> isEnabled quietSound" "audioContext quietSound" "purrInterval quietSound = None"
  "pending quietSound = []" "nextHandle quietSound = 1" "played quietSound = []"
  by (simp_all add: quietSound_def setEnabled_def stopAmbientPurr_def init_def soundManager0_def
      Let_def)

section \<open>The claims\<close>

text \<open>
  Claim C1. The tour is active, no reveal is in progress, and the step index is the last
  index of the loaded script. If the last step declares a non-empty \<^verbatim>\<open>navigateTo\<close>, then
  \<open>nextStep\<close> writes the cross-page flag to the local storage (it reads back as set when
  the storage is available), assigns the target to \<^verbatim>\<open>window.location.href\<close> and does
  nothing else: the state is untouched, so the tour is still active, the completion flag
  is as it was, and the result is not that of \<open>completeTour\<close>. If the last step declares no
  \<^verbatim>\<open>navigateTo\<close>, \<open>nextStep\<close> is \<open>completeTour\<close>. (The code tests the field for truthiness;
  in a reachable world the loaded script comes from the registry, where no \<^verbatim>\<open>navigateTo\<close>
  is the empty string, see \<open>reachable_navigateTo_nonempty\<close>.)
\<close>

theorem advance_at_last_step:
  assumes "isActive (state w)" and "\<not> isTyping (state w)" and "tourSteps w \<noteq> []"
    and "currentStep (state w) = int (length (tourSteps w)) - 1"
  shows "(\<forall>url. navigateTo (last (tourSteps w)) = Some url \<and> url \<noteq> [] \<longrightarrow>
            nextStep w = Returns (emit (LocationAssign url) (setTourActive True w))
          \<and> newCalls w (after (nextStep w)) = [LocationAssign url]
          \<and> (storageAvailable w \<longrightarrow> isTourActive (after (nextStep w)))
          \<and> state (after (nextStep w)) = state w
          \<and> hasCompletedTour (after (nextStep w)) = hasCompletedTour w
          \<and> nextStep w \<noteq> Returns (completeTour w))
       \<and> (navigateTo (last (tourSteps w)) = None \<longrightarrow> nextStep w = Returns (completeTour w))"
proof -
  note idx = last_step_index [OF assms(3,4)]
  have nt: "\<not> (isTyping (state w) \<and> speechBubble w)" using assms(2) by simp
  have nl: "\<not> currentStep (state w) < int (length (tourSteps w)) - 1" using assms(4) by simp
  note n = nextStep_last [OF assms(1) nt nl idx(1), unfolded idx(2)]
  have fin: "nextStep w = Returns (completeTour w)" if "navigateTo (last (tourSteps w)) = None"
    using n that by simp
  have nav: "nextStep w = Returns (emit (LocationAssign url) (setTourActive True w))"
    if "navigateTo (last (tourSteps w)) = Some url" and "url \<noteq> []" for url
    using n that by simp
  let ?g = "\<lambda>url. emit (LocationAssign url) (setTourActive True w)"
  have c: "newCalls w (?g url) = [LocationAssign url]" for url
    by (rule newCalls_append) (simp add: frames)
  have f: "storageAvailable w \<longrightarrow> isTourActive (?g url)" for url
    by (simp add: isTourActive_def getItem_emit setTourActive_def getItem_setItem)
  have s: "state (?g url) = state w" for url by (simp add: frames)
  have h: "hasCompletedTour (?g url) = hasCompletedTour w" for url
    by (simp add: hasCompletedTour_def getItem_emit setTourActive_def getItem_setItem key_defs)
  have d: "?g url \<noteq> completeTour w" for url
  proof
    assume "?g url = completeTour w"
    then have "isActive (state (?g url)) = isActive (state (completeTour w))" by simp
    then show False using assms(1) by (simp add: frames completeTour_fields)
  qed
  show ?thesis using fin nav c f s h d by simp
qed

text \<open>
  The theorem at the last step of the home script, which continues on the about page, and
  at the last step of the blog script, which ends the tour.
\<close>

theorem advance_at_last_step_witness:
  "nextStep (atLastStep ''/'' homeTour)
     = Returns (emit (LocationAssign ''/about'') (setTourActive True (atLastStep ''/'' homeTour)))
   \<and> isTourActive (after (nextStep (atLastStep ''/'' homeTour)))
   \<and> isActive (state (after (nextStep (atLastStep ''/'' homeTour))))
   \<and> nextStep (atLastStep ''/blog'' blogTour) = Returns (completeTour (atLastStep ''/blog'' blogTour))
   \<and> \<not> isActive (state (after (nextStep (atLastStep ''/blog'' blogTour))))"
proof -
  have h: "isActive (state (atLastStep p s))" "\<not> isTyping (state (atLastStep p s))"
    "currentStep (state (atLastStep p s)) = int (length (tourSteps (atLastStep p s))) - 1"
    "tourSteps (atLastStep p s) = s" "storageAvailable (atLastStep p s)" for p s
    by (simp_all add: atLastStep_def)
  have ne: "tourSteps (atLastStep ''/'' homeTour) \<noteq> []" "tourSteps (atLastStep ''/blog'' blogTour) \<noteq> []"
    using script_lengths(1,7) by (auto simp: h)
  note home = advance_at_last_step [OF h(1) h(2) ne(1) h(3)]
  note blog = advance_at_last_step [OF h(1) h(2) ne(2) h(3)]
  have "navigateTo (last (tourSteps (atLastStep ''/'' homeTour))) = Some ''/about'' \<and> ''/about'' \<noteq> []"
    by (simp add: h last_navigateTo)
  with home have a: "nextStep (atLastStep ''/'' homeTour)
     = Returns (emit (LocationAssign ''/about'') (setTourActive True (atLastStep ''/'' homeTour)))"
    "storageAvailable (atLastStep ''/'' homeTour)
       \<longrightarrow> isTourActive (after (nextStep (atLastStep ''/'' homeTour)))"
    "state (after (nextStep (atLastStep ''/'' homeTour))) = state (atLastStep ''/'' homeTour)"
    by blast+
  have "navigateTo (last (tourSteps (atLastStep ''/blog'' blogTour))) = None"
    by (simp add: h last_navigateTo)
  with blog have b: "nextStep (atLastStep ''/blog'' blogTour)
     = Returns (completeTour (atLastStep ''/blog'' blogTour))"
    by blast
  from a(2) have c1: "isTourActive (after (nextStep (atLastStep ''/'' homeTour)))"
    by (simp add: h)
  have c2: "isActive (state (after (nextStep (atLastStep ''/'' homeTour))))"
    by (simp add: a(3) h)
  have c3: "\<not> isActive (state (after (nextStep (atLastStep ''/blog'' blogTour))))"
    by (simp add: b completeTour_fields)
  from a(1) c1 c2 b c3 show ?thesis by (intro conjI)
qed

text \<open>
  Claim C2, as the code has it. In every state that the sound manager can reach,
  \<^verbatim>\<open>setEnabled(false)\<close> cancels the ambient purr: \<open>purrInterval\<close> is null afterwards, no
  timer of the manager is left pending, and nothing is played. A call of
  \<^verbatim>\<open>startAmbientPurr()\<close> after that does set the first timer of the ambient chain, with
  its handle in \<open>purrInterval\<close>; it plays nothing, and no sequence of firings of the chain
  plays anything, since the closure checks \<open>isEnabled\<close> each time it runs. The same holds
  for a call in any reachable state where \<open>isEnabled\<close> is false.
\<close>

theorem disabling_audio_silences_ambient_purr:
  assumes "reachableSound a"
  shows "purrInterval (setEnabled False a) = None
       \<and> pending (setEnabled False a) = []
       \<and> played (setEnabled False a) = played a
       \<and> purrInterval (startAmbientPurr (setEnabled False a)) = Some (nextHandle a)
       \<and> pending (startAmbientPurr (setEnabled False a)) = [(nextHandle a, 2000)]
       \<and> played (startAmbientPurr (setEnabled False a)) = played a
       \<and> (\<forall>es. played (timersFire es (startAmbientPurr (setEnabled False a))) = played a)
       \<and> (\<not> isEnabled a \<longrightarrow>
            (\<forall>es. played (timersFire es (startAmbientPurr a)) = played a))"
proof -
  have inv: "oneAmbientTimer a" using assms by (rule reachableSound_oneAmbientTimer)
  let ?b = "startAmbientPurr (setEnabled False a)"
  have off: "\<not> isEnabled ?b" by (simp add: startAmbientPurr_fields setEnabled_False_fields)
  have same: "played ?b = played a" by (simp add: startAmbientPurr_fields setEnabled_False_fields)
  have after_disable: "played (timersFire es ?b) = played a" for es
    using disabled_timersFire [OF off, of es] same by simp
  have while_disabled: "played (timersFire es (startAmbientPurr a)) = played a"
    if "\<not> isEnabled a" for es
  proof -
    from that have "\<not> isEnabled (startAmbientPurr a)" by (simp add: startAmbientPurr_fields)
    from disabled_timersFire [OF this, of es] show ?thesis
      by (simp add: startAmbientPurr_fields)
  qed
  show ?thesis
    using inv same after_disable while_disabled
    by (simp add: setEnabled_False_cancels setEnabled_False_fields
        startAmbientPurr_while_disabled_sets_timer [OF assms])
qed

text \<open>
  Claim C2 as stated says that \<^verbatim>\<open>startAmbientPurr()\<close> schedules nothing observable while
  audio is disabled. In the disabled manager below the call sets a timer and stores its
  handle; once audio is enabled again that timer purrs, where without the call it would
  not.
\<close>

theorem startAmbientPurr_while_disabled_counterexample:
  "\<not> isEnabled quietSound
   \<and> purrInterval (startAmbientPurr quietSound) = Some 1
   \<and> pending (startAmbientPurr quietSound) = [(1, 2000)]
   \<and> played (timerFires 1 0 (setEnabled True (startAmbientPurr quietSound))) = [Purr]
   \<and> played (timerFires 1 0 (setEnabled True quietSound)) = []"
  by (simp add: quietSound_fields startAmbientPurr_def truthy_handle_def schedulePurr_def
      setEnabled_def timerFires_def playRandomPurr_def playPurr_def Let_def)

text \<open>
  The theorem for claim C2 at a manager whose ambient timer is pending and that has purred
  once: disabling removes the timer, and two firings of the chain started afterwards add
  no sound to the one already played; and at a manager that is disabled already.
\<close>

theorem disabling_audio_witness:
  "reachableSound demoSound
   \<and> purrInterval demoSound = Some 1
   \<and> pending demoSound = [(1, 2000)]
   \<and> purrInterval (setEnabled False demoSound) = None
   \<and> pending (setEnabled False demoSound) = []
   \<and> played (timersFire [(2, 1 / 2), (3, 1 / 4)]
               (startAmbientPurr (setEnabled False demoSound))) = [Purr]
   \<and> reachableSound quietSound \<and> \<not> isEnabled quietSound
   \<and> played (timersFire [(1, 1 / 2), (2, 1 / 4)] (startAmbientPurr quietSound)) = []"
proof -
  have p: "played demoSound = [Purr]" "purrInterval demoSound = Some 1"
    "pending demoSound = [(1, 2000)]"
    by (simp_all add: demoSound_def soundManager0_def init_def startAmbientPurr_def
        truthy_handle_def schedulePurr_def playPurr_def)
  note t = disabling_audio_silences_ambient_purr [OF demoSound_reachable]
  from t have c: "purrInterval (setEnabled False demoSound) = None"
    "pending (setEnabled False demoSound) = []"
    by blast+
  from t have d: "played (timersFire [(2, 1 / 2), (3, 1 / 4)]
                  (startAmbientPurr (setEnabled False demoSound))) = played demoSound"
    by blast
  note q = disabling_audio_silences_ambient_purr [OF quietSound_reachable]
  from q quietSound_fields(1)
  have e: "played (timersFire [(1, 1 / 2), (2, 1 / 4)] (startAmbientPurr quietSound))
             = played quietSound"
    by blast
  from c d e p demoSound_reachable quietSound_reachable quietSound_fields(1,6)
  show ?thesis by (simp only: simp_thms)
qed

text \<open>
  Claim C3. In every reachable world in which the tour is active and a reveal is in
  progress, \<open>nextStep\<close> tells the bubble to show the whole message of the current step,
  clears \<open>isTyping\<close> and does nothing else: the step index is unchanged and the tour stays
  active. This branch comes before the comparison of the index with the length of the
  script.
\<close>

theorem advance_while_typing_only_skips_reveal:
  assumes "reachable w" and "isActive (state w)" and "isTyping (state w)"
  shows "nextStep w =
           Returns (w\<lparr>calls := calls w @
                        [BubbleSkipTyping (message (tourSteps w ! nat (currentStep (state w))))],
                      state := (state w)\<lparr>isTyping := False\<rparr>\<rparr>)
       \<and> getCurrentStep w = Some (tourSteps w ! nat (currentStep (state w)))
       \<and> currentStep (state (after (nextStep w))) = currentStep (state w)
       \<and> isActive (state (after (nextStep w)))
       \<and> \<not> isTyping (state (after (nextStep w)))"
proof -
  have inv: "tourInv w" using assms(1) by (rule reachable_tourInv)
  from inv assms(3) have b: "speechBubble w" and ne: "tourSteps w \<noteq> []"
    by (simp_all add: tourInv_def)
  from inv ne have r: "inRange w" by (rule tourInv_inRange)
  show ?thesis
    using assms(2) by (simp add: nextStep_typing [OF assms(2,3) b r] getCurrentStep_inRange [OF r])
qed

text \<open>
  The theorem on the home page right after the tour has started, while the first message
  is being revealed.
\<close>

theorem advance_while_typing_witness:
  "reachable demoStarted \<and> isActive (state demoStarted) \<and> isTyping (state demoStarted)
   \<and> currentStep (state demoStarted) = 0
   \<and> currentStep (state (after (nextStep demoStarted))) = 0
   \<and> \<not> isTyping (state (after (nextStep demoStarted)))
   \<and> newCalls demoStarted (after (nextStep demoStarted))
       = [BubbleSkipTyping ''Meow! I'm Neko, your guide on this homepage. Let me show you around!'']"
proof -
  note t = advance_while_typing_only_skips_reveal
    [OF demoStarted_reachable demoStarted_fields(1) demoStarted_fields(2)]
  from t have n: "nextStep demoStarted =
           Returns (demoStarted\<lparr>calls := calls demoStarted @
                        [BubbleSkipTyping (message (tourSteps demoStarted ! nat (currentStep (state demoStarted))))],
                      state := (state demoStarted)\<lparr>isTyping := False\<rparr>\<rparr>)"
    by blast
  have m: "message (homeTour ! 0) = ''Meow! I'm Neko, your guide on this homepage. Let me show you around!''"
    by (simp add: homeTour_def)
  show ?thesis
    using demoStarted_reachable demoStarted_fields m
    by (simp add: n newCalls_def)
qed

text \<open>
  Claim C4. From any world whatsoever \<open>startTour\<close> returns with the step index 0 and the
  tour active. In particular, after a start and two advances, each made once the reveal
  of the step before has ended, the index is 2, and a second start puts it back to 0.
\<close>

theorem restart_resets_step_index:
  "returned (startTour w)
   \<and> currentStep (state (after (startTour w))) = 0
   \<and> isActive (state (after (startTour w)))
   \<and> (let w1 = typeMessageResolved (after (startTour w));
           w2 = typeMessageResolved (after (nextStep w1));
           w3 = typeMessageResolved (after (nextStep w2))
       in currentStep (state w3) = 2
          \<and> returned (startTour w3)
          \<and> currentStep (state (after (startTour w3))) = 0
          \<and> isActive (state (after (startTour w3))))"
proof -
  define v0 where "v0 = after (startTour w)"
  define w1 where "w1 = typeMessageResolved v0"
  define v1 where "v1 = after (nextStep w1)"
  define w2 where "w2 = typeMessageResolved v1"
  define v2 where "v2 = after (nextStep w2)"
  define w3 where "w3 = typeMessageResolved v2"
  have len: "3 \<le> length (getTourStepsForPage (getCurrentPage w))"
    by (rule getTourStepsForPage_length)
  have a1: "isActive (state w1)" "currentStep (state w1) = 0"
    "tourSteps w1 = getTourStepsForPage (getCurrentPage w)" "speechBubble w1 = speechBubble w"
    by (simp_all add: w1_def v0_def typeMessageResolved_fields startTour_fields)
  have t1: "\<not> (isTyping (state w1) \<and> speechBubble w1)"
    unfolding w1_def v0_def
    by (rule resolved_after_render [where w = w]) (simp_all add: startTour_fields)
  have r1: "currentStep (state w1) < int (length (tourSteps w1)) - 1" "0 \<le> currentStep (state w1)"
    using len a1 by simp_all
  note n1 = advance_fields [OF a1(1) t1 r1(2) r1(1)]
  have a2: "isActive (state w2)" "currentStep (state w2) = 1"
    "tourSteps w2 = getTourStepsForPage (getCurrentPage w)" "speechBubble w2 = speechBubble w"
    using n1 a1 by (simp_all add: w2_def v1_def typeMessageResolved_fields)
  have t2: "\<not> (isTyping (state w2) \<and> speechBubble w2)"
    unfolding w2_def v1_def
    by (rule resolved_after_render [where w = w1]) (simp_all add: n1)
  have r2: "currentStep (state w2) < int (length (tourSteps w2)) - 1" "0 \<le> currentStep (state w2)"
    using len a2 by simp_all
  note n2 = advance_fields [OF a2(1) t2 r2(2) r2(1)]
  have a3: "currentStep (state w3) = 2"
    using n2 a2 by (simp add: w3_def v2_def typeMessageResolved_fields)
  show ?thesis
    using a3 unfolding w3_def v2_def w2_def v1_def w1_def v0_def Let_def
    by (simp add: startTour_fields)
qed

text \<open>
  The theorem from the middle of the tour of the about page.
\<close>

theorem restart_resets_step_index_witness:
  "currentStep (state (after (startTour demoMidTour))) = 0
   \<and> isActive (state (after (startTour demoMidTour)))
   \<and> currentStep (state (typeMessageResolved (after (nextStep (typeMessageResolved
         (after (nextStep (typeMessageResolved (after (startTour demoMidTour)))))))))) = 2"
  using restart_resets_step_index [of demoMidTour] by (simp add: Let_def)

text \<open>
  Claim C5. After \<open>completeTour\<close> the tour is not active and \<open>hasCompleted\<close> is true; the
  completion flag reads back as set when the local storage is available; the saved step
  and the cross-page flag read back as absent; and the calls made are, in this order and
  each only if its collaborator is mounted: the success sound, hiding the spotlight
  overlay, hiding the speech bubble, and the idle animation of the cat.
\<close>

theorem complete_postconditions:
  "isActive (state (completeTour w)) = False
   \<and> hasCompleted (state (completeTour w)) = True
   \<and> (storageAvailable w \<longrightarrow> hasCompletedTour (completeTour w))
   \<and> getItem TOUR_STEP_KEY (completeTour w) = None
   \<and> getItem TOUR_ACTIVE_KEY (completeTour w) = None
   \<and> \<not> isTourActive (completeTour w)
   \<and> newCalls w (completeTour w) =
        (if soundManager w then [SoundPlaySuccess] else []) @
        (if tourSpotlight w then [SpotlightHide] else []) @
        (if speechBubble w then [BubbleHide] else []) @
        (if catGuide w then [CatSetAnimation Idle] else [])"
  by (simp add: completeTour_fields completeTour_storage hasCompletedTour_def isTourActive_def
      newCalls_append [OF completeTour_calls])

text \<open>
  The theorem in the middle of a cross-page tour, with the cross-page flag and a saved
  step in the storage and all four collaborators mounted.
\<close>

theorem complete_postconditions_witness:
  "storageAvailable demoMidTour \<and> isTourActive demoMidTour
   \<and> getItem TOUR_STEP_KEY demoMidTour = Some ''1''
   \<and> \<not> isActive (state (completeTour demoMidTour))
   \<and> hasCompleted (state (completeTour demoMidTour))
   \<and> hasCompletedTour (completeTour demoMidTour)
   \<and> getItem TOUR_STEP_KEY (completeTour demoMidTour) = None
   \<and> \<not> isTourActive (completeTour demoMidTour)
   \<and> newCalls demoMidTour (completeTour demoMidTour)
       = [SoundPlaySuccess, SpotlightHide, BubbleHide, CatSetAnimation Idle]"
  using complete_postconditions [of demoMidTour] by (simp add: demoMidTour_fields)

text \<open>
  Claim C6. \<open>skipTour\<close> is \<open>completeTour\<close> after the cross-page flag has been removed, so
  after it the flag reads back as absent. On the page load that follows, whatever its
  location and its collaborators, the flag is still absent, \<^verbatim>\<open>initTour\<close> leaves only its
  own timer, and when that timer fires no timer of the cross-page branch is set: the tour
  is not resumed from that flag.
\<close>

theorem skip_prevents_auto_resume:
  "skipTour w = completeTour (setTourActive False w)
   \<and> getItem TOUR_ACTIVE_KEY (skipTour w) = None
   \<and> \<not> isTourActive (skipTour w)
   \<and> \<not> isTourActive (nextPageLoad (skipTour w) loc cg sb ts sm)
   \<and> timers (nextPageLoad (skipTour w) loc cg sb ts sm) = [(100, InitSettled)]
   \<and> (\<forall>t \<in> set (timers (after (fireTimer 0 (nextPageLoad (skipTour w) loc cg sb ts sm)))).
         snd t \<noteq> ContinueTour)"
proof -
  have "getItem TOUR_ACTIVE_KEY (skipTour w) \<noteq> Some ''true''" by (simp add: skipTour_storage)
  then have "\<forall>t \<in> set (timers (after (fireTimer 0 (nextPageLoad (skipTour w) loc cg sb ts sm)))).
         snd t \<noteq> ContinueTour"
    by (simp add: settle_after_load)
  then show ?thesis
    by (simp add: skipTour_def [symmetric] skipTour_storage isTourActive_def getItem_nextPageLoad
        nextPageLoad_fields)
qed

text \<open>
  The theorem in the middle of a cross-page tour: without the skip the next page load
  sets the timer of the cross-page branch; after the skip it sets the timer of the start
  marker when the link carries one, and none otherwise.
\<close>

theorem skip_prevents_auto_resume_witness:
  "isTourActive demoMidTour
   \<and> timers (after (fireTimer 0 (nextPageLoad demoMidTour markedLoc True True True True)))
       = [(500, ContinueTour)]
   \<and> \<not> isTourActive (skipTour demoMidTour)
   \<and> timers (after (fireTimer 0 (nextPageLoad (skipTour demoMidTour) markedLoc True True True True)))
       = [(500, BeginTour)]
   \<and> timers (after (fireTimer 0 (nextPageLoad (skipTour demoMidTour) aboutLoc True True True True)))
       = []"
proof -
  note t = skip_prevents_auto_resume [of demoMidTour markedLoc True True True True]
  from t have f: "\<not> isTourActive (skipTour demoMidTour)" by blast
  from t have n: "\<forall>t \<in> set (timers (after (fireTimer 0
      (nextPageLoad (skipTour demoMidTour) markedLoc True True True True)))). snd t \<noteq> ContinueTour"
    by blast
  have c: "getItem STORAGE_KEY (skipTour demoMidTour) = Some ''true''"
    by (simp add: skipTour_def completeTour_storage frames demoMidTour_fields)
  have m: "timers (after (fireTimer 0 (nextPageLoad (skipTour demoMidTour) markedLoc True True True True)))
       = [(500, BeginTour)]"
    using f c
    by (simp add: settle_after_load isTourActive_def markedLoc_def TOUR_PARAM_def
        schemeRelative_def)
  have a: "timers (after (fireTimer 0 (nextPageLoad (skipTour demoMidTour) aboutLoc True True True True)))
       = []"
    using f c by (simp add: settle_after_load isTourActive_def aboutLoc_def TOUR_PARAM_def)
  from n m a f show ?thesis
    by (simp add: demoMidTour_fields active_flag_resumes)
qed

text \<open>
  Claim C7. For every page identifier the registry returns a non-empty list of steps: the
  script authored for that page, or the script of the home page when none is registered.
  The last step of every registered script either has no \<^verbatim>\<open>navigateTo\<close>, or its
  \<^verbatim>\<open>navigateTo\<close> is a key of the registry. (The argument of \<open>getTourStepsForPage\<close> is
  always a URL path, which begins with a slash, so the lookup never meets a property that
  the object literal inherits.)
\<close>

theorem scriptFor_nonempty_and_chained:
  "getTourStepsForPage pg \<noteq> []
   \<and> getTourStepsForPage pg = (case pageTours pg of Some steps \<Rightarrow> steps | None \<Rightarrow> homeTour)
   \<and> pageTours ''/'' = Some homeTour
   \<and> (\<forall>q steps. pageTours q = Some steps \<longrightarrow>
         steps \<noteq> [] \<and>
         (case navigateTo (last steps) of None \<Rightarrow> True | Some u \<Rightarrow> u \<in> dom pageTours))"
proof -
  have "steps \<noteq> []" if "pageTours q = Some steps" for q steps
    using registered_length [OF that] by auto
  then show ?thesis
    using getTourStepsForPage_nonempty [of pg] pageTours_home registered_continuation
    by (simp add: getTourStepsForPage_def)
qed

text \<open>
  The theorem at a page without a script and at the contact page.
\<close>

theorem scriptFor_witness:
  "getTourStepsForPage ''/nowhere'' = homeTour
   \<and> pageTours ''/contact'' = Some contactTour
   \<and> navigateTo (last contactTour) = Some ''/blog''
   \<and> ''/blog'' \<in> dom pageTours"
proof -
  have c: "pageTours ''/contact'' = Some contactTour"
    by (simp add: pageTours_def pageTours_table_def)
  have n: "pageTours ''/nowhere'' = None"
    by (simp add: pageTours_def pageTours_table_def)
  from scriptFor_nonempty_and_chained [of "''/nowhere''"]
  have "getTourStepsForPage ''/nowhere'' = homeTour"
    and "case navigateTo (last contactTour) of None \<Rightarrow> True | Some u \<Rightarrow> u \<in> dom pageTours"
    using c n by simp_all
  then show ?thesis using c by (simp add: last_navigateTo)
qed

text \<open>
  Claim C8. After \<open>startTour\<close>, from any world, the step index points into the loaded
  script. From a world where it does, \<open>startTour\<close>, \<open>nextStep\<close>, \<open>prevStep\<close> and
  \<open>skipTour\<close> all return (none throws) and leave it pointing into the loaded script, and so
  does the end of a reveal. \<open>prevStep\<close> changes nothing at all at index 0, and nothing at
  all when the tour is not active.
\<close>

theorem operations_keep_index_in_range:
  "inRange (after (startTour v))
   \<and> (inRange w \<longrightarrow>
        inRange (after (startTour w)) \<and> returned (startTour w)
      \<and> inRange (after (nextStep w)) \<and> returned (nextStep w)
      \<and> inRange (after (prevStep w)) \<and> returned (prevStep w)
      \<and> inRange (skipTour w)
      \<and> inRange (typeMessageResolved w)
      \<and> (currentStep (state w) = 0 \<longrightarrow> prevStep w = Returns w)
      \<and> (\<not> isActive (state w) \<longrightarrow> prevStep w = Returns w))"
proof -
  have "inRange (after (nextStep w)) \<and> returned (nextStep w)" if r: "inRange w"
  proof -
    consider (idle) "\<not> isActive (state w)"
      | (skip) "isActive (state w)" "isTyping (state w)" "speechBubble w"
      | (step) "isActive (state w)" "\<not> (isTyping (state w) \<and> speechBubble w)"
          "currentStep (state w) < int (length (tourSteps w)) - 1"
      | (last) "isActive (state w)" "\<not> (isTyping (state w) \<and> speechBubble w)"
          "\<not> currentStep (state w) < int (length (tourSteps w)) - 1"
      by blast
    then show ?thesis
    proof cases
      case idle
      then show ?thesis using r by (simp add: nextStep_idle)
    next
      case skip
      then show ?thesis using r by (simp add: nextStep_typing [OF skip r] inRange_def)
    next
      case step
      from r have "0 \<le> currentStep (state w)" by (simp add: inRange_def)
      note n = advance_fields [OF step(1,2) this step(3)]
      show ?thesis using step(3) r by (simp add: inRange_def n)
    next
      case last
      show ?thesis
        using r
        by (simp add: nextStep_last [OF last r] inRange_def frames completeTour_fields
            split: option.splits)
    qed
  qed
  moreover have "inRange (after (prevStep w)) \<and> returned (prevStep w)" if r: "inRange w"
  proof (cases "isActive (state w) \<and> currentStep (state w) > 0")
    case False
    then have "prevStep w = Returns w" by (intro prevStep_noop) auto
    then show ?thesis using r by simp
  next
    case True
    let ?w1 = "w\<lparr>state := (state w)\<lparr>currentStep := currentStep (state w) - 1\<rparr>\<rparr>"
    have r1: "inRange ?w1" using r True by (simp add: inRange_def)
    show ?thesis
      using True r1 by (simp add: prevStep_back renderStep_inRange [OF r1] inRange_def)
  qed
  moreover have "inRange (skipTour w)" if "inRange w"
    using that by (simp add: inRange_def skipTour_def completeTour_fields frames)
  moreover have "inRange (typeMessageResolved w)" if "inRange w"
    using that by (simp add: inRange_def typeMessageResolved_fields)
  moreover have "prevStep w = Returns w" if "currentStep (state w) = 0 \<or> \<not> isActive (state w)"
    using that by (intro prevStep_noop) auto
  ultimately show ?thesis
    by (simp add: inRange_startTour startTour_fields)
qed

text \<open>
  The theorem in the middle of the tour of the about page, at the first step of the home
  page, and on the home page before the tour has started.
\<close>

theorem operations_keep_index_in_range_witness:
  "inRange demoMidTour
   \<and> inRange (after (nextStep demoMidTour))
   \<and> inRange (after (prevStep demoMidTour))
   \<and> inRange (skipTour demoMidTour)
   \<and> inRange (after (startTour demoMidTour))
   \<and> inRange demoStarted \<and> currentStep (state demoStarted) = 0
   \<and> prevStep demoStarted = Returns demoStarted
   \<and> inRange demoLoaded \<and> \<not> isActive (state demoLoaded)
   \<and> prevStep demoLoaded = Returns demoLoaded"
proof -
  have r: "inRange demoStarted" "inRange demoLoaded"
    by (simp_all add: inRange_def demoStarted_fields demoLoaded_fields script_lengths)
  from operations_keep_index_in_range [of demoMidTour demoMidTour]
    operations_keep_index_in_range [of demoMidTour demoStarted]
    operations_keep_index_in_range [of demoMidTour demoLoaded]
  show ?thesis
    using r by (simp add: demoMidTour_fields demoStarted_fields demoLoaded_fields)
qed

text \<open>
  Claim C9. The tour is active, a reveal is in progress and the step index is greater
  than 0 (and points into the script). Then \<open>prevStep\<close> is \<open>renderStep\<close> at the index
  before: it returns with the index decremented; none of its calls is \<^verbatim>\<open>skipTyping\<close>; when
  the bubble is mounted its last call is \<^verbatim>\<open>typeMessage\<close> with the message of the previous
  step, and one more reveal is awaited than before, the earlier one not having been
  ended; \<open>isTyping\<close> stays true.
\<close>

theorem retreat_while_typing_renders_previous_step:
  assumes "isActive (state w)" and "isTyping (state w)" and "0 < currentStep (state w)"
    and "currentStep (state w) < int (length (tourSteps w))"
  shows "prevStep w = renderStep (w\<lparr>state := (state w)\<lparr>currentStep := currentStep (state w) - 1\<rparr>\<rparr>)
       \<and> returned (prevStep w)
       \<and> currentStep (state (after (prevStep w))) = currentStep (state w) - 1
       \<and> isTyping (state (after (prevStep w)))
       \<and> awaitingReveal (after (prevStep w))
           = (if speechBubble w then Suc (awaitingReveal w) else awaitingReveal w)
       \<and> (\<forall>m. BubbleSkipTyping m \<notin> set (newCalls w (after (prevStep w))))
       \<and> (speechBubble w \<longrightarrow>
            newCalls w (after (prevStep w)) \<noteq> [] \<and>
            last (newCalls w (after (prevStep w)))
              = BubbleTypeMessage (message (tourSteps w ! nat (currentStep (state w) - 1)))
                  TYPING_SPEED)"
proof -
  let ?w1 = "w\<lparr>state := (state w)\<lparr>currentStep := currentStep (state w) - 1\<rparr>\<rparr>"
  have r1: "inRange ?w1" using assms(3,4) by (simp add: inRange_def)
  have p: "prevStep w = renderStep ?w1" using assms(1,3) by (rule prevStep_back)
  have c: "newCalls w (after (renderStep ?w1)) =
     (let step = tourSteps w ! nat (currentStep (state w) - 1) in
      (if catGuide w then [CatSetAnimation (animation step)] else []) @
      (if animation step = Celebrating \<and> soundManager w then [SoundPlayPurr] else []) @
      (if tourSpotlight w then
         (if truthy_flag (welcomeMode step)
          then [SpotlightSetWelcomeMode True, SpotlightShow (Some True)]
          else [SpotlightSetWelcomeMode False, SpotlightShow None,
                SpotlightHighlightElement (target step)])
       else []) @
      (if speechBubble w then
         [BubbleSetStep (currentStep (state w) - 1 + 1) (int (length (tourSteps w))),
          BubbleShow (welcomeMode step), BubbleTypeMessage (message step) TYPING_SPEED]
       else []))"
    using renderStep_calls [OF r1] by (simp add: newCalls_def Let_def)
  show ?thesis
    unfolding p c using assms(2) by (simp add: renderStep_inRange [OF r1] Let_def)
qed

text \<open>
  The theorem at the second step of the about page while its message is being revealed.
\<close>

theorem retreat_while_typing_witness:
  "isActive (state demoMidTour) \<and> isTyping (state demoMidTour)
   \<and> currentStep (state demoMidTour) = 1
   \<and> currentStep (state (after (prevStep demoMidTour))) = 0
   \<and> awaitingReveal (after (prevStep demoMidTour)) = 2
   \<and> newCalls demoMidTour (after (prevStep demoMidTour))
       = [CatSetAnimation Waving, SpotlightSetWelcomeMode True, SpotlightShow (Some True),
          BubbleSetStep 1 4, BubbleShow (Some True),
          BubbleTypeMessage ''Hey there! I'm Mochi, the orange cat! Neko sent you? Let me tell you about Ade!'' 25]"
proof -
  have h: "0 < currentStep (state demoMidTour)"
    "currentStep (state demoMidTour) < int (length (tourSteps demoMidTour))"
    by (simp_all add: demoMidTour_fields script_lengths)
  note t = retreat_while_typing_renders_previous_step
    [OF demoMidTour_fields(1) demoMidTour_fields(2) h]
  from t have p: "prevStep demoMidTour =
      renderStep (demoMidTour\<lparr>state := (state demoMidTour)\<lparr>currentStep := currentStep (state demoMidTour) - 1\<rparr>\<rparr>)"
    and c: "currentStep (state (after (prevStep demoMidTour))) = currentStep (state demoMidTour) - 1"
    and a: "awaitingReveal (after (prevStep demoMidTour))
           = (if speechBubble demoMidTour then Suc (awaitingReveal demoMidTour) else awaitingReveal demoMidTour)"
    by blast+
  let ?w1 = "demoMidTour\<lparr>state := (state demoMidTour)\<lparr>currentStep := currentStep (state demoMidTour) - 1\<rparr>\<rparr>"
  have r1: "inRange ?w1" by (simp add: inRange_def demoMidTour_fields script_lengths)
  have s0: "aboutTour ! 0 = \<lparr>step_id = ''welcome'', target = None, animation = Waving,
      message = ''Hey there! I'm Mochi, the orange cat! Neko sent you? Let me tell you about Ade!'',
      welcomeMode = Some True, navigateTo = None, page = Some ''/about''\<rparr>"
    by (simp add: aboutTour_def)
  have n: "newCalls demoMidTour (after (prevStep demoMidTour))
       = [CatSetAnimation Waving, SpotlightSetWelcomeMode True, SpotlightShow (Some True),
          BubbleSetStep 1 4, BubbleShow (Some True),
          BubbleTypeMessage ''Hey there! I'm Mochi, the orange cat! Neko sent you? Let me tell you about Ade!'' 25]"
    unfolding p newCalls_def renderStep_calls [OF r1]
    by (simp add: demoMidTour_fields s0 script_lengths truthy_flag_def TYPING_SPEED_def Let_def)
  show ?thesis using c a n by (simp add: demoMidTour_fields)
qed

text \<open>
  Claim C10. When the start marker is present at initialisation (and the cross-page flag is
  not set), stripping it is meant to replace the visible URL by the bare path, without
  query, fragment or page load. On a page whose path begins with a single slash the code
  does so (\<open>stripping_on_ordinary_path\<close>). On the page below, whose path begins with two
  slashes, it does not: \<^verbatim>\<open>clearTourParam\<close> passes that path alone to
  \<^verbatim>\<open>history.replaceState\<close>, which throws; the timer of \<^verbatim>\<open>initTour\<close> ends with the exception
  after the two listeners have been registered, the location still has its query and its
  fragment, and no timer is left that would start the tour.
\<close>

theorem stripping_start_marker_throws_on_double_slash:
  "shouldStartFromUrl demoDoubleSlash \<and> \<not> isTourActive demoDoubleSlash
   \<and> timers demoDoubleSlash = [(100, InitSettled)]
   \<and> \<not> returned (fireTimer 0 demoDoubleSlash)
   \<and> location (after (fireTimer 0 demoDoubleSlash)) =
        \<lparr>pathname = ''//elsewhere.example/about'', search = [(''start-tour'', [])],
          hash = ''#top''\<rparr>
   \<and> timers (after (fireTimer 0 demoDoubleSlash)) = []
   \<and> newCalls demoDoubleSlash (after (fireTimer 0 demoDoubleSlash))
        = [AddKeydownListener, AddClickListener]"
proof -
  let ?p = "demoDoubleSlash\<lparr>timers := []\<rparr>"
  have f: "fireTimer 0 demoDoubleSlash = initSettled ?p"
    by (simp add: fireTimer_def demoDoubleSlash_fields)
  have h: "shouldStartFromUrl ?p" "\<not> isTourActive ?p" "schemeRelative (pathname (location ?p))"
    using demoDoubleSlash_fields
    by (simp_all add: shouldStartFromUrl_def isTourActive_def getItem_def)
  show ?thesis
    unfolding f initSettled_throws [OF h]
    by (simp add: demoDoubleSlash_fields frames newCalls_def)
qed

end
